theory Spec2Isabelle
  imports Complex_Main
begin

section \<open>Data model\<close>

text \<open>
  \<^verbatim>\<open>worker/nexus_worker/jobs/base.py\<close>: \<^verbatim>\<open>JobResult\<close> is a dataclass, \<^verbatim>\<open>Job\<close> an
  abstract class whose only mutable field is \<^verbatim>\<open>last_run\<close>.
  \<^verbatim>\<open>worker/config.py\<close>: \<^verbatim>\<open>AgentConfig\<close>.

  Python strings are modelled as \<^typ>\<open>string\<close> (lists of 8-bit characters, so file
  names are taken to be ASCII), Python's unbounded integers as \<^typ>\<open>int\<close> or
  \<^typ>\<open>nat\<close> (counters and sizes, which are never negative).
  The fields \<^verbatim>\<open>id\<close> and \<^verbatim>\<open>type\<close> of \<^verbatim>\<open>Job\<close> are written \<open>id'\<close> and \<open>type'\<close>.
\<close>

record job_result =
  job_id :: string
  success :: bool
  message :: string
  items_processed :: nat
  errors :: "string list"

record agent_config =
  workspace :: string
  sessions_dir :: string

text \<open>
  \<^verbatim>\<open>config: dict[str, Any]\<close>: the session-upload job reads one option, \<^verbatim>\<open>agents\<close>, a
  sequence of agent identifiers, so the dictionary maps an option name to such a sequence.
  A \<^verbatim>\<open>datetime\<close> is an integer number of microseconds (its resolution), and so is
  a \<^verbatim>\<open>timedelta\<close>. A Python \<^verbatim>\<open>float\<close> is the real number that the double stands for.
\<close>

record job =
  id' :: string
  type' :: string
  enabled :: bool
  interval_minutes :: int
  config :: "string \<rightharpoonup> string list"
  agents :: "string \<rightharpoonup> agent_config"
  last_run :: "int option"

text \<open>
  Exceptions. \<^verbatim>\<open>except Exception\<close> catches the instances of \<^verbatim>\<open>Exception\<close> only:
  \<^verbatim>\<open>KeyboardInterrupt\<close>, \<^verbatim>\<open>SystemExit\<close> and \<^verbatim>\<open>GeneratorExit\<close> derive from
  \<^verbatim>\<open>BaseException\<close> directly and pass through it. The argument is \<^verbatim>\<open>str(e)\<close>.
\<close>

datatype exn = Exception string | BaseException string

section \<open>The environment: file system, network, log\<close>

text \<open>
  An entry of a sessions directory, as \<^verbatim>\<open>Path.glob\<close> lists it: a regular file with its
  \<^verbatim>\<open>st_size\<close> in bytes and the result of \<^verbatim>\<open>read_text(encoding="utf-8")\<close>
  (\<open>None\<close> when the bytes do not decode, which raises \<^verbatim>\<open>UnicodeDecodeError\<close>), or a
  directory with its own entries.
\<close>

datatype node = RegularFile nat "string option" | Directory "(string \<times> node) list"

text \<open>
  What \<^verbatim>\<open>_get_active_sessions\<close> finds at \<^verbatim>\<open>sessions.json\<close>: no such file; a file that
  \<^verbatim>\<open>open\<close> or \<^verbatim>\<open>json.load\<close> fails on (with the exception's text); JSON that is not an
  object; an object, with its keys.
\<close>

datatype sessions_index = Missing | Unreadable string | NotADict | Dict "string list"

text \<open>
  What stands at \<^verbatim>\<open>sessions_dir / "archive"\<close>: nothing, a directory with its
  entries, or something that is not a directory (\<^verbatim>\<open>mkdir(exist_ok=True)\<close> then raises
  \<^verbatim>\<open>FileExistsError\<close>).
\<close>

datatype archive_node = NoArchive | ArchiveDir "(string \<times> node) list" | ArchiveNotDir

text \<open>
  A sessions directory. \<open>entries\<close> is the listing in the order the file system
  returns it; \<^verbatim>\<open>sessions.json\<close> and \<^verbatim>\<open>archive\<close> are kept apart from it (neither
  name matches the pattern \<^verbatim>\<open>*.jsonl*\<close>).
\<close>

record dir_state =
  entries :: "(string \<times> node) list"
  sessions_json :: sessions_index
  archive :: archive_node

text \<open>
  The request of \<^verbatim>\<open>requests.post(url, params={"code": api_key}, json=payload, timeout=30)\<close>
  and what the call does: it returns a response (status code and body), raises
  \<^verbatim>\<open>requests.RequestException\<close>, or raises something else.
\<close>

record request =
  url :: string
  code :: string
  agentId :: string
  sessionId :: string
  transcript :: string
  timeout :: nat

datatype http_outcome = Response nat string | RequestException string | OtherRaise exn

datatype level = DEBUG | INFO | WARNING | ERROR

text \<open>
  What a run does to the world outside the file system is recorded as a trace: log
  records, requests sent, directories created, files moved, and the calls of
  \<^verbatim>\<open>mark_run\<close> (with the job's id and the clock's reading).
\<close>

datatype event =
    Log level string
  | Post request
  | Mkdir string
  | Move string string
  | MarkRun string int

record world =
  fs :: "string \<rightharpoonup> dir_state"
  trace :: "event list"

text \<open>The remote endpoint may answer by what it has seen so far.\<close>

type_synonym server = "event list \<Rightarrow> request \<Rightarrow> http_outcome"

definition emit :: "event \<Rightarrow> world \<Rightarrow> world" where
  "emit e w = w\<lparr>trace := trace w @ [e]\<rparr>"

definition log_msg :: "level \<Rightarrow> string \<Rightarrow> world \<Rightarrow> world" where
  "log_msg l m w = emit (Log l m) w"

section \<open>Formatting\<close>

text \<open>\<^verbatim>\<open>str(n)\<close> and the format \<^verbatim>\<open>{n:,}\<close> of a non-negative integer.\<close>

definition digit_char :: "nat \<Rightarrow> char" where
  "digit_char d =
     (if d = 0 then CHR ''0'' else if d = 1 then CHR ''1'' else if d = 2 then CHR ''2''
      else if d = 3 then CHR ''3'' else if d = 4 then CHR ''4'' else if d = 5 then CHR ''5''
      else if d = 6 then CHR ''6'' else if d = 7 then CHR ''7'' else if d = 8 then CHR ''8''
      else CHR ''9'')"

fun str_nat :: "nat \<Rightarrow> string" where
  "str_nat n = (if n < 10 then [digit_char n] else str_nat (n div 10) @ [digit_char (n mod 10)])"

fun group3 :: "string \<Rightarrow> string" where
  "group3 (a # b # c # d # rest) = a # b # c # CHR '','' # group3 (d # rest)"
| "group3 xs = xs"

definition str_commas :: "nat \<Rightarrow> string" where
  "str_commas n = rev (group3 (rev (str_nat n)))"

definition path_join :: "string \<Rightarrow> string \<Rightarrow> string" where
  "path_join d n = d @ ''/'' @ n"

section \<open>Job: base.py\<close>

text \<open>\<^verbatim>\<open>Job.__init__\<close>: \<^verbatim>\<open>last_run\<close> starts as \<^verbatim>\<open>None\<close>.\<close>

definition init_job ::
  "string \<Rightarrow> string \<Rightarrow> bool \<Rightarrow> int \<Rightarrow> (string \<rightharpoonup> string list) \<Rightarrow> (string \<rightharpoonup> agent_config) \<Rightarrow> job" where
  "init_job jid jtype en iv cfg ags =
     \<lparr>id' = jid, type' = jtype, enabled = en, interval_minutes = iv,
      config = cfg, agents = ags, last_run = None\<rparr>"

text \<open>
  \<^verbatim>\<open>timedelta.total_seconds()\<close> is the true division of two integers, the
  microseconds of the \<^verbatim>\<open>timedelta\<close> by \<^verbatim>\<open>10**6\<close>, and the result is a \<^verbatim>\<open>float\<close>: the
  double nearest to the quotient, a tie going to the even significand.

  \<^verbatim>\<open>int.bit_length()\<close>; the nearest integer to \<open>a / b\<close> for \<open>b > 0\<close>, ties to even; the
  binary exponent \<open>e\<close> of a quotient \<open>n / b\<close> of positive integers, that is
  \<open>2 ^ e \<le> n / b < 2 ^ (e + 1)\<close>; and the division \<open>a / b\<close> for \<open>b > 0\<close>, which rounds the
  quotient to a significand \<open>m\<close> of 53 bits. The quotients of \<^verbatim>\<open>total_seconds\<close> are 0 or
  lie between \<open>10 ^ -6\<close> and \<open>10 ^ 14\<close> in absolute value (a \<^verbatim>\<open>timedelta\<close> has fewer
  than \<open>10 ^ 9\<close> days), so the exponent of a double never runs out.
\<close>

fun bit_length :: "nat \<Rightarrow> nat" where
  "bit_length n = (if n = 0 then 0 else Suc (bit_length (n div 2)))"

declare bit_length.simps [simp del]

definition round_half_even :: "int \<Rightarrow> int \<Rightarrow> int" where
  "round_half_even a b =
     (let q = a div b; r = a mod b
      in if 2 * r < b \<or> (2 * r = b \<and> even q) then q else q + 1)"

definition binary_exponent :: "int \<Rightarrow> int \<Rightarrow> int" where
  "binary_exponent n b =
     (let g = int (bit_length (nat n)) - int (bit_length (nat b))
      in if b * 2 ^ nat g \<le> n * 2 ^ nat (- g) then g else g - 1)"

definition true_divide :: "int \<Rightarrow> int \<Rightarrow> real" where
  "true_divide a b =
     (if a = 0 then 0
      else
        (let k = 52 - binary_exponent \<bar>a\<bar> b;
             m = round_half_even (\<bar>a\<bar> * 2 ^ nat k) (b * 2 ^ nat (- k))
         in real_of_int (sgn a * m * 2 ^ nat (- k)) / 2 ^ nat k))"

definition total_seconds :: "int \<Rightarrow> real" where
  "total_seconds td = true_divide td 1000000"

text \<open>
  \<^verbatim>\<open>is_due\<close> and \<^verbatim>\<open>mark_run\<close> are methods of a mutable object: each takes the reading
  \<open>now\<close> of \<^verbatim>\<open>datetime.now()\<close> and the object, and returns the object as it leaves it
  (for \<^verbatim>\<open>is_due\<close> next to the result).
\<close>

definition is_due :: "int \<Rightarrow> job \<Rightarrow> bool \<times> job" where
  "is_due now self =
     (case last_run self of
        None \<Rightarrow> (True, self)
      | Some t \<Rightarrow>
          (let elapsed = total_seconds (now - t)
           in (elapsed \<ge> real_of_int (interval_minutes self * 60), self)))"

definition mark_run :: "int \<Rightarrow> job \<Rightarrow> job" where
  "mark_run now self = self\<lparr>last_run := Some now\<rparr>"

section \<open>SessionUploadJob: session_upload.py\<close>

definition MAX_TRANSCRIPT_BYTES :: nat where
  "MAX_TRANSCRIPT_BYTES = 10485760"

text \<open>Python's truth value of a \<^verbatim>\<open>str | None\<close>.\<close>

fun truthy :: "string option \<Rightarrow> bool" where
  "truthy None = False"
| "truthy (Some s) = (s \<noteq> [])"

definition extract_session_id :: "string \<Rightarrow> string option" where
  "extract_session_id filename =
     (if length filename \<ge> 36 then
        (let session_id = take 36 filename
         in if length session_id = 36 \<and> count_list session_id CHR ''-'' = 4
            then Some session_id else None)
      else None)"

text \<open>
  \<^verbatim>\<open>glob("*.jsonl*")\<close>: the name has \<^verbatim>\<open>.jsonl\<close> somewhere in it (\<^verbatim>\<open>pathlib\<close> lets
  \<^verbatim>\<open>*\<close> match a leading dot too).
\<close>

fun contains :: "string \<Rightarrow> string \<Rightarrow> bool" where
  "contains p [] = (p = [])"
| "contains p (c # cs) = (take (length p) (c # cs) = p \<or> contains p cs)"

definition glob_jsonl :: "string \<Rightarrow> bool" where
  "glob_jsonl name = contains ''.jsonl'' name"

fun is_file :: "node \<Rightarrow> bool" where
  "is_file (RegularFile _ _) = True"
| "is_file (Directory es) = False"

text \<open>
  \<^verbatim>\<open>_get_active_sessions\<close>. A sessions directory that does not exist has no
  \<^verbatim>\<open>sessions.json\<close> either.
\<close>

definition get_active_sessions :: "string \<Rightarrow> world \<Rightarrow> string set \<times> world" where
  "get_active_sessions sdir w =
     (case fs w sdir of
        None \<Rightarrow> ({}, w)
      | Some d \<Rightarrow>
          (case sessions_json d of
             Missing \<Rightarrow> ({}, w)
           | Dict keys \<Rightarrow> (set keys, w)
           | NotADict \<Rightarrow> ({}, w)
           | Unreadable e \<Rightarrow> ({}, log_msg WARNING (''Error reading sessions.json: '' @ e) w)))"

text \<open>\<^verbatim>\<open>_find_completed_sessions\<close>: the names of the files it returns, in glob order.\<close>

definition completed_file :: "string set \<Rightarrow> string \<times> node \<Rightarrow> bool" where
  "completed_file active_sessions f =
     (glob_jsonl (fst f) \<and> is_file (snd f) \<and>
      (let session_id = extract_session_id (fst f)
       in truthy session_id \<and>
          (case session_id of None \<Rightarrow> False | Some i \<Rightarrow> i \<notin> active_sessions)))"

definition find_completed_sessions :: "string \<Rightarrow> string set \<Rightarrow> world \<Rightarrow> string list" where
  "find_completed_sessions sdir active_sessions w =
     (case fs w sdir of
        None \<Rightarrow> []
      | Some d \<Rightarrow> map fst (filter (completed_file active_sessions) (entries d)))"

text \<open>
  \<^verbatim>\<open>session_file.stat()\<close> and \<^verbatim>\<open>read_text\<close> look the file up when the loop reaches
  it; a name that is gone raises \<^verbatim>\<open>FileNotFoundError\<close>.
\<close>

definition lookup_file :: "string \<Rightarrow> string \<Rightarrow> world \<Rightarrow> node option" where
  "lookup_file sdir name w =
     (case fs w sdir of None \<Rightarrow> None | Some d \<Rightarrow> map_of (entries d) name)"

text \<open>
  The text of an \<^verbatim>\<open>OSError\<close> ends with the \<^verbatim>\<open>repr\<close> of the path, which puts it between
  single quotes (the paths here have no quote or backslash in them).
\<close>

definition quoted :: "string \<Rightarrow> string" where
  "quoted p = [CHR 0x27] @ p @ [CHR 0x27]"

definition no_such_file :: "string \<Rightarrow> exn" where
  "no_such_file p = Exception (''[Errno 2] No such file or directory: '' @ quoted p)"

definition file_exists :: "string \<Rightarrow> exn" where
  "file_exists p = Exception (''[Errno 17] File exists: '' @ quoted p)"

definition not_a_directory :: "string \<Rightarrow> exn" where
  "not_a_directory p = Exception (''[Errno 20] Not a directory: '' @ quoted p)"

definition is_a_directory :: "string \<Rightarrow> exn" where
  "is_a_directory p = Exception (''[Errno 21] Is a directory: '' @ quoted p)"

text \<open>The dash of the warning below, in UTF-8.\<close>

definition em_dash :: string where
  "em_dash = [CHR 0xE2, CHR 0x80, CHR 0x94]"

text \<open>The \<^verbatim>\<open>url\<close>, \<^verbatim>\<open>params\<close> and \<^verbatim>\<open>payload\<close> of \<^verbatim>\<open>_upload_session\<close>.\<close>

definition session_request ::
  "string \<Rightarrow> string \<Rightarrow> string \<Rightarrow> string \<Rightarrow> string \<Rightarrow> request" where
  "session_request endpoint api_key agent_id session_id text =
     \<lparr>url = endpoint @ ''/sessions'', code = api_key, agentId = agent_id,
      sessionId = session_id, transcript = text, timeout = 30\<rparr>"

text \<open>
  \<^verbatim>\<open>_upload_session\<close>. The size check comes first and returns before anything is read or
  sent. The request is recorded in the trace when \<^verbatim>\<open>requests.post\<close> is called, whatever
  comes back. A directory under the file's name makes \<^verbatim>\<open>read_text\<close> raise. The text
  of a \<^verbatim>\<open>UnicodeDecodeError\<close> names the offending byte and its position, which the model
  does not have; the message below stands for it.
\<close>

definition upload_session ::
  "server \<Rightarrow> string \<Rightarrow> string \<Rightarrow> string \<Rightarrow> string \<Rightarrow> string \<Rightarrow> string \<Rightarrow> world
     \<Rightarrow> (exn + bool) \<times> world" where
  "upload_session srv agent_id session_id sdir name endpoint api_key w =
     (case lookup_file sdir name w of
        None \<Rightarrow> (Inl (no_such_file (path_join sdir name)), w)
      | Some (Directory es) \<Rightarrow> (Inl (is_a_directory (path_join sdir name)), w)
      | Some (RegularFile file_size content) \<Rightarrow>
          if file_size > MAX_TRANSCRIPT_BYTES then
            (Inr False,
             log_msg WARNING
               (''Session '' @ session_id @ '' too large ('' @ str_commas file_size @
                '' bytes), max is '' @ str_commas MAX_TRANSCRIPT_BYTES @ '' bytes '' @
                em_dash @ '' skipping'') w)
          else
            (case content of
               None \<Rightarrow> (Inl (Exception ''codec can not decode bytes: invalid utf-8''), w)
             | Some text \<Rightarrow>
                 (let req = session_request endpoint api_key agent_id session_id text;
                      w1 = emit (Post req) w
                  in case srv (trace w) req of
                       Response status_code body \<Rightarrow>
                         if status_code = 200 then (Inr True, w1)
                         else if status_code = 409 then
                           (Inr True,
                            log_msg WARNING (''Session already exists: '' @ session_id) w1)
                         else if status_code = 413 then
                           (Inr False,
                            log_msg ERROR (''Session too large: '' @ session_id) w1)
                         else
                           (Inr False,
                            log_msg ERROR
                              (''Upload failed ('' @ str_nat status_code @ ''): '' @ body) w1)
                     | RequestException e \<Rightarrow>
                         (Inr False, log_msg ERROR (''Request failed: '' @ e) w1)
                     | OtherRaise x \<Rightarrow> (Inl x, w1))))"

text \<open>
  \<^verbatim>\<open>_archive_session\<close>: \<^verbatim>\<open>archive_dir.mkdir(exist_ok=True)\<close>, then
  \<^verbatim>\<open>shutil.move(src, dst)\<close> with \<open>src\<close> the session file and \<open>dst\<close> the path of the same
  name in the archive.

  \<^verbatim>\<open>mkdir\<close> raises \<^verbatim>\<open>FileNotFoundError\<close> where the sessions directory is gone and
  \<^verbatim>\<open>FileExistsError\<close> where \<^verbatim>\<open>archive\<close> is there and is not a directory.
\<close>

definition mkdir_archive :: "string \<Rightarrow> world \<Rightarrow> (exn + unit) \<times> world" where
  "mkdir_archive sdir w =
     (case fs w sdir of
        None \<Rightarrow> (Inl (no_such_file (path_join sdir ''archive'')), w)
      | Some d \<Rightarrow>
          (case archive d of
             ArchiveNotDir \<Rightarrow> (Inl (file_exists (path_join sdir ''archive'')), w)
           | ArchiveDir files \<Rightarrow> (Inr (), w)
           | NoArchive \<Rightarrow>
               (Inr (),
                emit (Mkdir (path_join sdir ''archive''))
                  (w\<lparr>fs := (fs w)(sdir \<mapsto> d\<lparr>archive := ArchiveDir []\<rparr>)\<rparr>))))"

text \<open>
  \<^verbatim>\<open>shutil.move\<close>. Where \<open>dst\<close> is a directory the source goes inside it, to
  \<open>dst/name\<close>, and \<^verbatim>\<open>shutil.Error\<close> is raised if that path exists. Otherwise
  \<^verbatim>\<open>os.rename(src, dst)\<close>, which replaces a regular file at \<open>dst\<close>. Where
  \<^verbatim>\<open>os.rename\<close> raises \<^verbatim>\<open>OSError\<close> the move falls back on copying: for a regular
  file \<^verbatim>\<open>copy2\<close>, which raises \<^verbatim>\<open>FileNotFoundError\<close> for a source that is gone and
  otherwise the error of opening \<open>dst\<close> for writing; for a directory \<^verbatim>\<open>copytree\<close>,
  whose \<^verbatim>\<open>os.makedirs(dst)\<close> makes a missing archive directory on the way and raises
  \<^verbatim>\<open>FileExistsError\<close> on a file at \<open>dst\<close>.

  \<open>put\<close> sets the entry of a name in a listing, and \<open>rename_entry\<close> is the move that
  succeeds: the entry leaves the sessions directory and the archive becomes \<open>files\<close>.
\<close>

definition put :: "string \<Rightarrow> node \<Rightarrow> (string \<times> node) list \<Rightarrow> (string \<times> node) list" where
  "put name nd files = (name, nd) # filter (\<lambda>e. fst e \<noteq> name) files"

definition rename_entry ::
  "string \<Rightarrow> string \<Rightarrow> dir_state \<Rightarrow> (string \<times> node) list \<Rightarrow> string \<Rightarrow> world \<Rightarrow> world" where
  "rename_entry sdir name d files real_dst w =
     emit (Move (path_join sdir name) real_dst)
       (w\<lparr>fs := (fs w)(sdir \<mapsto>
          d\<lparr>entries := filter (\<lambda>e. fst e \<noteq> name) (entries d), archive := ArchiveDir files\<rparr>)\<rparr>)"

definition move_file :: "string \<Rightarrow> string \<Rightarrow> world \<Rightarrow> (exn + unit) \<times> world" where
  "move_file name sdir w =
     (let src = path_join sdir name;
          dst = path_join (path_join sdir ''archive'') name
      in case fs w sdir of
           None \<Rightarrow> (Inl (no_such_file src), w)
         | Some d \<Rightarrow>
             (case archive d of
                ArchiveDir files \<Rightarrow>
                  (case map_of files name of
                     Some (Directory inner) \<Rightarrow>
                       if map_of inner name \<noteq> None then
                         (Inl (Exception (''Destination path '' @ quoted (path_join dst name) @
                                 '' already exists'')), w)
                       else
                         (case map_of (entries d) name of
                            None \<Rightarrow> (Inl (no_such_file src), w)
                          | Some nd \<Rightarrow>
                              (Inr (),
                               rename_entry sdir name d
                                 (put name (Directory (inner @ [(name, nd)])) files)
                                 (path_join dst name) w))
                   | Some (RegularFile old_size old_content) \<Rightarrow>
                       (case map_of (entries d) name of
                          None \<Rightarrow> (Inl (no_such_file src), w)
                        | Some (Directory es) \<Rightarrow> (Inl (file_exists dst), w)
                        | Some (RegularFile file_size content) \<Rightarrow>
                            (Inr (),
                             rename_entry sdir name d
                               (put name (RegularFile file_size content) files) dst w))
                   | None \<Rightarrow>
                       (case map_of (entries d) name of
                          None \<Rightarrow> (Inl (no_such_file src), w)
                        | Some nd \<Rightarrow>
                            (Inr (), rename_entry sdir name d (put name nd files) dst w)))
              | NoArchive \<Rightarrow>
                  (case map_of (entries d) name of
                     None \<Rightarrow> (Inl (no_such_file src), w)
                   | Some (RegularFile file_size content) \<Rightarrow> (Inl (no_such_file dst), w)
                   | Some (Directory es) \<Rightarrow>
                       (Inr (), rename_entry sdir name d [(name, Directory es)] dst w))
              | ArchiveNotDir \<Rightarrow>
                  (case map_of (entries d) name of
                     None \<Rightarrow> (Inl (no_such_file src), w)
                   | Some nd \<Rightarrow> (Inl (not_a_directory dst), w))))"

definition archive_session :: "string \<Rightarrow> string \<Rightarrow> world \<Rightarrow> (exn + unit) \<times> world" where
  "archive_session name sdir w =
     (case mkdir_archive sdir w of
        (Inl x, w1) \<Rightarrow> (Inl x, w1)
      | (Inr u, w1) \<Rightarrow> move_file name sdir w1)"

text \<open>The error that the loop records for an upload that returned \<^verbatim>\<open>False\<close>.\<close>

definition upload_failed_error :: "string \<Rightarrow> string" where
  "upload_failed_error session_id = ''Upload failed: '' @ session_id"

text \<open>The error that the handler of the loop records for an exception with text \<open>e\<close>.\<close>

definition error_uploading :: "string \<Rightarrow> string \<Rightarrow> string" where
  "error_uploading session_id e = ''Error uploading '' @ session_id @ '': '' @ e"

text \<open>
  The handler \<^verbatim>\<open>except Exception as e\<close> of the loop in \<^verbatim>\<open>_process_agent\<close>: it
  records the error and the loop goes on; anything else leaves the loop and the job.
\<close>

definition except_Exception ::
  "string \<Rightarrow> exn \<Rightarrow> nat \<times> string list \<Rightarrow> world \<Rightarrow> (exn + nat \<times> string list) \<times> world" where
  "except_Exception session_id x acc w =
     (case x of
        Exception e \<Rightarrow>
          (Inr (fst acc, snd acc @ [error_uploading session_id e]),
           log_msg ERROR (''Error uploading session '' @ session_id) w)
      | BaseException e \<Rightarrow> (Inl x, w))"

text \<open>
  The body of the loop over \<^verbatim>\<open>completed\<close> in \<^verbatim>\<open>_process_agent\<close>, for the file
  \<open>name\<close>; \<open>acc\<close> is \<^verbatim>\<open>(uploaded, errors)\<close>.
\<close>

definition process_session ::
  "server \<Rightarrow> string \<Rightarrow> string \<Rightarrow> string \<Rightarrow> string \<Rightarrow> string \<Rightarrow> nat \<times> string list \<Rightarrow> world
     \<Rightarrow> (exn + nat \<times> string list) \<times> world" where
  "process_session srv agent_id sdir endpoint api_key name acc w =
     (case extract_session_id name of
        None \<Rightarrow> (Inr (fst acc, snd acc @ [''Invalid session filename: '' @ name]), w)
      | Some session_id \<Rightarrow>
          if session_id = [] then
            (Inr (fst acc, snd acc @ [''Invalid session filename: '' @ name]), w)
          else
            (case upload_session srv agent_id session_id sdir name endpoint api_key w of
               (Inl x, w1) \<Rightarrow> except_Exception session_id x acc w1
             | (Inr ok, w1) \<Rightarrow>
                 if ok then
                   (case archive_session name sdir w1 of
                      (Inl x, w2) \<Rightarrow> except_Exception session_id x acc w2
                    | (Inr u, w2) \<Rightarrow>
                        (Inr (fst acc + 1, snd acc),
                         log_msg INFO (''Uploaded and archived: '' @ session_id) w2))
                 else
                   (Inr (fst acc, snd acc @ [upload_failed_error session_id]), w1)))"

fun process_sessions ::
  "server \<Rightarrow> string \<Rightarrow> string \<Rightarrow> string \<Rightarrow> string \<Rightarrow> string list \<Rightarrow> nat \<times> string list \<Rightarrow> world
     \<Rightarrow> (exn + nat \<times> string list) \<times> world" where
  "process_sessions srv agent_id sdir endpoint api_key [] acc w = (Inr acc, w)"
| "process_sessions srv agent_id sdir endpoint api_key (name # rest) acc w =
     (case process_session srv agent_id sdir endpoint api_key name acc w of
        (Inl x, w1) \<Rightarrow> (Inl x, w1)
      | (Inr acc1, w1) \<Rightarrow> process_sessions srv agent_id sdir endpoint api_key rest acc1 w1)"

text \<open>\<^verbatim>\<open>_process_agent\<close>.\<close>

definition process_agent ::
  "server \<Rightarrow> string \<Rightarrow> string \<Rightarrow> string \<Rightarrow> string \<Rightarrow> world
     \<Rightarrow> (exn + nat \<times> string list) \<times> world" where
  "process_agent srv agent_id sdir endpoint api_key w =
     (case get_active_sessions sdir w of
        (active_sessions, w1) \<Rightarrow>
          (let completed = find_completed_sessions sdir active_sessions w1
           in if completed = [] then
                (Inr (0, []), log_msg DEBUG (''No completed sessions for '' @ agent_id) w1)
              else
                process_sessions srv agent_id sdir endpoint api_key completed (0, [])
                  (log_msg INFO
                     (''Found '' @ str_nat (length completed) @
                      '' completed sessions for '' @ agent_id) w1)))"

text \<open>
  \<^verbatim>\<open>SessionUploadJob.run\<close>: the loop over \<^verbatim>\<open>agent_ids\<close>, with
  \<^verbatim>\<open>(total_uploaded, errors)\<close> as accumulator, and the method itself.
\<close>

fun run_agents ::
  "server \<Rightarrow> job \<Rightarrow> string \<Rightarrow> string \<Rightarrow> string list \<Rightarrow> nat \<times> string list \<Rightarrow> world
     \<Rightarrow> (exn + nat \<times> string list) \<times> world" where
  "run_agents srv self endpoint api_key [] acc w = (Inr acc, w)"
| "run_agents srv self endpoint api_key (agent_id # rest) acc w =
     (case agents self agent_id of
        None \<Rightarrow>
          run_agents srv self endpoint api_key rest
            (fst acc, snd acc @ [''Agent not found in config: '' @ agent_id]) w
      | Some ac \<Rightarrow>
          (case fs w (sessions_dir ac) of
             None \<Rightarrow>
               run_agents srv self endpoint api_key rest acc
                 (log_msg WARNING (''Sessions directory not found: '' @ sessions_dir ac) w)
           | Some d \<Rightarrow>
               (case process_agent srv agent_id (sessions_dir ac) endpoint api_key w of
                  (Inl x, w1) \<Rightarrow> (Inl x, w1)
                | (Inr r, w1) \<Rightarrow>
                    run_agents srv self endpoint api_key rest
                      (fst acc + fst r, snd acc @ snd r) w1)))"

definition run :: "server \<Rightarrow> job \<Rightarrow> string \<Rightarrow> string \<Rightarrow> world \<Rightarrow> (exn + job_result) \<times> world" where
  "run srv self endpoint api_key w =
     (let agent_ids = (case config self ''agents'' of None \<Rightarrow> [] | Some v \<Rightarrow> v)
      in if agent_ids = [] then
           (Inr \<lparr>job_id = id' self, success = True, message = ''No agents configured'',
                 items_processed = 0, errors = []\<rparr>, w)
         else
           (case run_agents srv self endpoint api_key agent_ids (0, []) w of
              (Inl x, w1) \<Rightarrow> (Inl x, w1)
            | (Inr (total_uploaded, errs), w1) \<Rightarrow>
                (let ok = (length errs = 0 \<or> total_uploaded > 0);
                     msg = (if errs \<noteq> [] then
                              ''Uploaded '' @ str_nat total_uploaded @ '' sessions, '' @
                              str_nat (length errs) @ '' errors''
                            else ''Uploaded '' @ str_nat total_uploaded @ '' sessions'')
                 in (Inr \<lparr>job_id = id' self, success = ok, message = msg,
                          items_processed = total_uploaded, errors = errs\<rparr>, w1))))"

section \<open>Scheduler: scheduler.py\<close>

text \<open>
  \<^verbatim>\<open>Job.run\<close> is abstract: \<^verbatim>\<open>run_job\<close> takes the job's \<^verbatim>\<open>run\<close> as a parameter.
  It either returns a result or raises. \<open>now\<close> is the reading of the clock at the
  one call of \<^verbatim>\<open>mark_run\<close> that an execution reaches.
\<close>

type_synonym job_run = "job \<Rightarrow> string \<Rightarrow> string \<Rightarrow> world \<Rightarrow> (exn + job_result) \<times> world"

text \<open>The call \<^verbatim>\<open>job.mark_run()\<close>, recorded in the trace.\<close>

definition call_mark_run :: "int \<Rightarrow> job \<Rightarrow> world \<Rightarrow> job \<times> world" where
  "call_mark_run now j w = (mark_run now j, emit (MarkRun (id' j) now) w)"

fun log_errors :: "string \<Rightarrow> string list \<Rightarrow> world \<Rightarrow> world" where
  "log_errors jid [] w = w"
| "log_errors jid (e # es) w =
     log_errors jid es (log_msg WARNING (''Job '' @ jid @ '': '' @ e) w)"

definition run_job ::
  "job_run \<Rightarrow> int \<Rightarrow> job \<Rightarrow> string \<Rightarrow> string \<Rightarrow> world \<Rightarrow> (exn + job_result) \<times> job \<times> world" where
  "run_job job_run now j endpoint api_key w =
     (let w0 = log_msg INFO (''Running job: '' @ id' j) w
      in case job_run j endpoint api_key w0 of
           (Inr result, w1) \<Rightarrow>
             (case call_mark_run now j w1 of
                (j1, w2) \<Rightarrow>
                  (let w3 = log_msg INFO (''Job '' @ id' j @ '': '' @ message result) w2;
                       w4 = log_errors (id' j) (errors result) w3
                   in (Inr result, j1, w4)))
         | (Inl (Exception e), w1) \<Rightarrow>
             (let w2 = log_msg ERROR (''Job '' @ id' j @ '' failed with exception'') w1
              in case call_mark_run now j w2 of
                   (j1, w3) \<Rightarrow>
                     (Inr \<lparr>job_id = id' j, success = False, message = ''Exception: '' @ e,
                           items_processed = 0, errors = [e]\<rparr>, j1, w3))
         | (Inl (BaseException e), w1) \<Rightarrow> (Inl (BaseException e), j, w1))"

section \<open>Observations\<close>

text \<open>
  What the theorems below read off a trace and a file system: the requests sent, the
  number of files moved, the number of calls of \<^verbatim>\<open>mark_run\<close>, and the state of the
  archive of a sessions directory.

  \<open>archived_file\<close> is the entry that a name has in the archive: what stands at
  \<^verbatim>\<open>archive/name\<close>, or at \<^verbatim>\<open>archive/name/name\<close> where \<^verbatim>\<open>archive/name\<close> is a directory
  (\<^verbatim>\<open>shutil.move\<close> puts a file there whose destination is a directory).
  \<open>archive_usable\<close>: \<^verbatim>\<open>mkdir(exist_ok=True)\<close> succeeds, the path \<^verbatim>\<open>archive\<close> being free
  or a directory. \<open>destination_taken\<close>: \<^verbatim>\<open>archive/name\<close> is a directory that has an
  entry \<open>name\<close>, so that \<^verbatim>\<open>shutil.move\<close> raises. \<open>can_archive\<close>: neither stands in the
  way of \<^verbatim>\<open>_archive_session\<close>.
\<close>

fun posted :: "event \<Rightarrow> request list" where
  "posted (Post r) = [r]"
| "posted e = []"

definition posts :: "event list \<Rightarrow> request list" where
  "posts evs = concat (map posted evs)"

fun is_Move :: "event \<Rightarrow> bool" where
  "is_Move (Move src dst) = True"
| "is_Move e = False"

definition moves :: "event list \<Rightarrow> nat" where
  "moves evs = length (filter is_Move evs)"

fun is_MarkRun :: "event \<Rightarrow> bool" where
  "is_MarkRun (MarkRun jid t) = True"
| "is_MarkRun e = False"

definition mark_run_calls :: "event list \<Rightarrow> nat" where
  "mark_run_calls evs = length (filter is_MarkRun evs)"

fun inside :: "string \<Rightarrow> node option \<Rightarrow> node option" where
  "inside name (Some (Directory inner)) = map_of inner name"
| "inside name other = other"

definition archived_file :: "string \<Rightarrow> string \<Rightarrow> world \<Rightarrow> node option" where
  "archived_file sdir name w =
     (case fs w sdir of
        None \<Rightarrow> None
      | Some d \<Rightarrow>
          (case archive d of
             ArchiveDir files \<Rightarrow> inside name (map_of files name)
           | NoArchive \<Rightarrow> None
           | ArchiveNotDir \<Rightarrow> None))"

fun holds :: "string \<Rightarrow> node option \<Rightarrow> bool" where
  "holds name (Some (Directory inner)) = (map_of inner name \<noteq> None)"
| "holds name other = False"

definition destination_taken :: "string \<Rightarrow> string \<Rightarrow> world \<Rightarrow> bool" where
  "destination_taken sdir name w =
     (case fs w sdir of
        None \<Rightarrow> False
      | Some d \<Rightarrow>
          (case archive d of
             ArchiveDir files \<Rightarrow> holds name (map_of files name)
           | NoArchive \<Rightarrow> False
           | ArchiveNotDir \<Rightarrow> False))"

definition archive_usable :: "string \<Rightarrow> world \<Rightarrow> bool" where
  "archive_usable sdir w =
     (case fs w sdir of None \<Rightarrow> False | Some d \<Rightarrow> archive d \<noteq> ArchiveNotDir)"

definition can_archive :: "string \<Rightarrow> string \<Rightarrow> world \<Rightarrow> bool" where
  "can_archive sdir name w = (archive_usable sdir w \<and> \<not> destination_taken sdir name w)"

definition archive_is_dir :: "string \<Rightarrow> world \<Rightarrow> bool" where
  "archive_is_dir sdir w =
     (case fs w sdir of
        None \<Rightarrow> False
      | Some d \<Rightarrow>
          (case archive d of
             ArchiveDir files \<Rightarrow> True
           | NoArchive \<Rightarrow> False
           | ArchiveNotDir \<Rightarrow> False))"



definition active_ids :: "string \<Rightarrow> world \<Rightarrow> string set" where
  "active_ids sdir w = fst (get_active_sessions sdir w)"

text \<open>
  The condition under which the loop of \<^verbatim>\<open>_process_agent\<close> reaches
  \<^verbatim>\<open>_archive_session\<close> for the file \<open>g\<close> and nothing stands in the way of archiving it.
\<close>

definition uploads_and_archives ::
  "server \<Rightarrow> string \<Rightarrow> string \<Rightarrow> string \<Rightarrow> string \<Rightarrow> string \<Rightarrow> world \<Rightarrow> bool" where
  "uploads_and_archives srv agent_id sdir endpoint api_key g w =
     (case extract_session_id g of
        None \<Rightarrow> False
      | Some session_id \<Rightarrow>
          fst (upload_session srv agent_id session_id sdir g endpoint api_key w) = Inr True \<and>
          can_archive sdir g w)"

text \<open>The status-code policy, as the specification's table has it.\<close>

fun upload_accepted :: "http_outcome \<Rightarrow> bool" where
  "upload_accepted (Response st body) = (st = 200 \<or> st = 409)"
| "upload_accepted (RequestException e) = False"
| "upload_accepted (OtherRaise x) = False"


section \<open>Concrete inputs\<close>

definition file_1111 :: string where
  "file_1111 = ''11111111-1111-1111-1111-111111111111.jsonl''"

definition file_2222 :: string where
  "file_2222 = ''22222222-2222-2222-2222-222222222222.jsonl''"

definition file_zzzz :: string where
  "file_zzzz = ''zzzzzzzz-zzzz-zzzz-zzzz-zzzzzzzzzzzz.jsonl''"

definition file_short :: string where
  "file_short = ''short.jsonl''"

definition file_3hyphens :: string where
  "file_3hyphens = ''22222222-2222-2222-22222222222222222.jsonl''"

definition one_dir :: "(string \<times> node) list \<Rightarrow> sessions_index \<Rightarrow> archive_node \<Rightarrow> world" where
  "one_dir es idx ar =
     \<lparr>fs = [''/s'' \<mapsto> \<lparr>entries = es, sessions_json = idx, archive = ar\<rparr>], trace = []\<rparr>"

definition upload_job :: "string list option \<Rightarrow> job" where
  "upload_job ags =
     init_job ''upload'' ''session_upload'' True 5
       (case ags of None \<Rightarrow> Map.empty | Some v \<Rightarrow> [''agents'' \<mapsto> v])
       [''a1'' \<mapsto> \<lparr>workspace = ''/w'', sessions_dir = ''/s''\<rparr>]"

definition server_status :: "nat \<Rightarrow> string \<Rightarrow> server" where
  "server_status st body = (\<lambda>h r. Response st body)"

definition refused_result :: job_result where
  "refused_result =
     \<lparr>job_id = ''upload'', success = False, message = ''Uploaded 0 sessions, 1 errors'',
      items_processed = 0,
      errors = [''Upload failed: 22222222-2222-2222-2222-222222222222'']\<rparr>"

definition uploaded_result :: job_result where
  "uploaded_result =
     \<lparr>job_id = ''upload'', success = True, message = ''Uploaded 1 sessions'',
      items_processed = 1, errors = []\<rparr>"

definition raising_run :: "exn \<Rightarrow> job_run" where
  "raising_run x = (\<lambda>j endpoint api_key w. (Inl x, w))"

section \<open>Basic facts\<close>

text \<open>The definitions that evaluate a run on a concrete input.\<close>

lemmas eval_defs = run_def upload_job_def init_job_def one_dir_def server_status_def
     process_agent_def get_active_sessions_def find_completed_sessions_def completed_file_def glob_jsonl_def
     extract_session_id_def process_session_def upload_session_def lookup_file_def MAX_TRANSCRIPT_BYTES_def
     archive_session_def mkdir_archive_def move_file_def emit_def log_msg_def digit_char_def Let_def
     session_request_def file_1111_def file_2222_def file_zzzz_def except_Exception_def no_such_file_def
     path_join_def str_commas_def em_dash_def upload_failed_error_def error_uploading_def quoted_def
     file_exists_def
     not_a_directory_def is_a_directory_def put_def rename_entry_def

lemma trace_emit: "trace (emit e w) = trace w @ [e]"
  by (simp add: emit_def)

lemma fs_emit: "fs (emit e w) = fs w"
  by (simp add: emit_def)

lemma trace_log_msg: "trace (log_msg l m w) = trace w @ [Log l m]"
  by (simp add: log_msg_def emit_def)

lemma fs_log_msg: "fs (log_msg l m w) = fs w"
  by (simp add: log_msg_def emit_def)

lemma lookup_file_emit: "lookup_file sdir name (emit e w) = lookup_file sdir name w"
  by (simp add: lookup_file_def fs_emit)

lemma posts_append: "posts (xs @ ys) = posts xs @ posts ys"
  by (simp add: posts_def)

lemma posts_Log: "posts [Log l m] = []"
  by (simp add: posts_def)

lemma mark_run_calls_append: "mark_run_calls (xs @ ys) = mark_run_calls xs + mark_run_calls ys"
  by (simp add: mark_run_calls_def)

lemma mark_run_calls_log_errors:
  "mark_run_calls (trace (log_errors jid es w)) = mark_run_calls (trace w)"
  by (induction es arbitrary: w) (simp_all add: trace_log_msg mark_run_calls_append mark_run_calls_def)

lemma extract_session_id_Some:
  "extract_session_id name = Some sid \<longleftrightarrow>
     length name \<ge> 36 \<and> count_list (take 36 name) CHR ''-'' = 4 \<and> sid = take 36 name"
  by (auto simp: extract_session_id_def Let_def)

lemma extract_session_id_nonempty: "extract_session_id name = Some sid \<Longrightarrow> sid \<noteq> []"
  by (auto simp: extract_session_id_Some)



lemma upload_session_oversized:
  assumes "lookup_file sdir name w = Some (RegularFile sz content)" and "sz > MAX_TRANSCRIPT_BYTES"
  shows "upload_session srv agent_id session_id sdir name endpoint api_key w =
           (Inr False,
            log_msg WARNING
               (''Session '' @ session_id @ '' too large ('' @ str_commas sz @
                '' bytes), max is '' @ str_commas MAX_TRANSCRIPT_BYTES @ '' bytes '' @
                em_dash @ '' skipping'') w)"
  using assms by (simp add: upload_session_def)

lemma upload_session_posts:
  assumes "lookup_file sdir name w = Some (RegularFile sz (Some text))" and "sz \<le> MAX_TRANSCRIPT_BYTES"
  shows "\<exists>evs. trace (snd (upload_session srv agent_id session_id sdir name endpoint api_key w)) =
           trace w @ Post (session_request endpoint api_key agent_id session_id text) # evs"
  using assms
  by (cases "srv (trace w) (session_request endpoint api_key agent_id session_id text)")
     (simp_all add: upload_session_def Let_def trace_emit trace_log_msg)

lemma upload_session_fs: "fs (snd (upload_session srv agent_id session_id sdir name endpoint api_key w)) = fs w"
  by (simp add: upload_session_def Let_def fs_emit fs_log_msg
      split: option.splits node.splits http_outcome.splits)

lemma trace_rename_entry:
  "trace (rename_entry sdir name d files real_dst w) = trace w @ [Move (path_join sdir name) real_dst]"
  by (simp add: rename_entry_def emit_def)

lemma fs_rename_entry:
  "fs (rename_entry sdir name d files real_dst w) =
     (fs w)(sdir \<mapsto> d\<lparr>entries := filter (\<lambda>e. fst e \<noteq> name) (entries d),
                         archive := ArchiveDir files\<rparr>)"
  by (simp add: rename_entry_def emit_def)






section \<open>The job contract\<close>

subsection \<open>Rounding to a double\<close>

lemma bit_length_le: "n < 2 ^ j \<Longrightarrow> bit_length n \<le> j"
proof (induction n arbitrary: j rule: bit_length.induct)
  case (1 n)
  note prems = "1.prems" and IH = "1.IH"
  show ?case
  proof (cases "n = 0")
    case True
    then show ?thesis by (simp add: bit_length.simps)
  next
    case False
    with prems obtain i where j: "j = Suc i" by (cases j) auto
    with prems have "n div 2 < 2 ^ i" by auto
    from IH [OF False this] False j show ?thesis by (simp add: bit_length.simps [of n])
  qed
qed

lemma bit_length_million: "bit_length 1000000 = 20"
  by (simp add: bit_length.simps)

text \<open>A quotient below \<open>2 ^ 34\<close> has an exponent of at most 33.\<close>

lemma binary_exponent_le:
  assumes "n < 2 ^ 34 * 1000000"
  shows "binary_exponent n 1000000 \<le> 33"
proof -
  have "nat n < 2 ^ 54" using assms by simp
  then have b: "bit_length (nat n) \<le> 54" by (rule bit_length_le)
  let ?g = "int (bit_length (nat n)) - 20"
  from b have g: "?g \<le> 34" by simp
  show ?thesis
  proof (cases "?g = 34")
    case True
    with assms show ?thesis by (simp add: binary_exponent_def bit_length_million Let_def)
  next
    case False
    with g have "?g \<le> 33" by simp
    then show ?thesis by (simp add: binary_exponent_def bit_length_million Let_def)
  qed
qed

lemma prod_le_cancel: "0 < (b::int) \<Longrightarrow> x * b \<le> y * b \<Longrightarrow> x \<le> y"
  by (simp add: mult_le_cancel_right)

lemma prod_less_cancel: "0 < (b::int) \<Longrightarrow> x * b < y * b \<Longrightarrow> x < y"
  by (simp add: mult_less_cancel_right)

lemma round_half_even_cases:
  assumes "0 < b"
  obtains q r where "a = q * b + r" and "0 \<le> r" and "r < b"
    and "round_half_even a b = q \<and> 2 * r \<le> b \<or> round_half_even a b = q + 1 \<and> b \<le> 2 * r"
proof -
  let ?q = "a div b" and ?r = "a mod b"
  have 1: "a = ?q * b + ?r" by simp
  have 2: "0 \<le> ?r" and 3: "?r < b" using assms by simp_all
  have 4: "round_half_even a b = ?q \<and> 2 * ?r \<le> b \<or> round_half_even a b = ?q + 1 \<and> b \<le> 2 * ?r"
    by (auto simp: round_half_even_def Let_def)
  from that [OF 1 2 3 4] show ?thesis .
qed

text \<open>
  Rounding to the nearest integer is monotone and fixes the integers, and it rounds down
  to below \<open>m\<close> what is more than a half below \<open>m\<close>.
\<close>

lemma round_half_even_ge:
  assumes b: "0 < b" and h: "m * b \<le> a"
  shows "m \<le> round_half_even a b"
proof -
  from b obtain q r where a: "a = q * b + r" and r0: "0 \<le> r" and rb: "r < b"
    and c: "round_half_even a b = q \<and> 2 * r \<le> b \<or> round_half_even a b = q + 1 \<and> b \<le> 2 * r"
    by (rule round_half_even_cases)
  from h a rb have "m * b < (q + 1) * b" by (simp add: algebra_simps)
  from prod_less_cancel [OF b this] have "m \<le> q" by simp
  with c show ?thesis by auto
qed

lemma round_half_even_le:
  assumes b: "0 < b" and h: "a \<le> m * b"
  shows "round_half_even a b \<le> m"
proof -
  from b obtain q r where a: "a = q * b + r" and r0: "0 \<le> r" and rb: "r < b"
    and c: "round_half_even a b = q \<and> 2 * r \<le> b \<or> round_half_even a b = q + 1 \<and> b \<le> 2 * r"
    by (rule round_half_even_cases)
  from h a r0 have "q * b \<le> m * b" by simp
  from prod_le_cancel [OF b this] have qm: "q \<le> m" .
  show ?thesis
  proof (cases "q = m")
    case True
    with h a r0 have "r = 0" by simp
    with c b True show ?thesis by auto
  next
    case False
    with qm c show ?thesis by auto
  qed
qed

lemma round_half_even_less:
  assumes b: "0 < b" and h: "2 * a < (2 * m - 1) * b"
  shows "round_half_even a b < m"
proof -
  from b obtain q r where a: "a = q * b + r" and r0: "0 \<le> r" and rb: "r < b"
    and c: "round_half_even a b = q \<and> 2 * r \<le> b \<or> round_half_even a b = q + 1 \<and> b \<le> 2 * r"
    by (rule round_half_even_cases)
  from h a have h': "2 * (q * b) + 2 * r + b < 2 * (m * b)" by (simp add: algebra_simps)
  from c show ?thesis
  proof
    assume d: "round_half_even a b = q \<and> 2 * r \<le> b"
    from h' r0 b have "q * b < m * b" by linarith
    from prod_less_cancel [OF b this] d show ?thesis by simp
  next
    assume d: "round_half_even a b = q + 1 \<and> b \<le> 2 * r"
    with h' have "(q + 1) * b < m * b" by (simp add: algebra_simps)
    from prod_less_cancel [OF b this] d show ?thesis by simp
  qed
qed

lemma round_half_even_greater:
  assumes b: "0 < b" and h: "(2 * m + 1) * b < 2 * a"
  shows "m < round_half_even a b"
proof -
  from b obtain q r where a: "a = q * b + r" and r0: "0 \<le> r" and rb: "r < b"
    and c: "round_half_even a b = q \<and> 2 * r \<le> b \<or> round_half_even a b = q + 1 \<and> b \<le> 2 * r"
    by (rule round_half_even_cases)
  from h a have h': "2 * (m * b) + b < 2 * (q * b) + 2 * r" by (simp add: algebra_simps)
  from c show ?thesis
  proof
    assume d: "round_half_even a b = q \<and> 2 * r \<le> b"
    with h' have "m * b < q * b" by simp
    from prod_less_cancel [OF b this] d show ?thesis by simp
  next
    assume d: "round_half_even a b = q + 1 \<and> b \<le> 2 * r"
    have e: "(q + 1) * b = q * b + b" by (simp add: algebra_simps)
    from h' rb b have "m * b < q * b + b" by linarith
    then have "m * b < (q + 1) * b" unfolding e .
    from prod_less_cancel [OF b this] d show ?thesis by simp
  qed
qed

text \<open>
  Below \<open>2 ^ 34\<close> seconds the doubles are less than two microseconds apart, and the
  rounded quotient compares with an integer number of seconds as the exact one does.
\<close>

lemma true_divide_ge_iff:
  assumes "\<bar>a\<bar> < 2 ^ 34 * 1000000"
  shows "real_of_int N \<le> true_divide a 1000000 \<longleftrightarrow> N * 1000000 \<le> a"
proof (cases "a = 0")
  case True
  then show ?thesis by (simp add: true_divide_def)
next
  case False
  define k where "k = nat (52 - binary_exponent \<bar>a\<bar> 1000000)"
  define m where "m = round_half_even (\<bar>a\<bar> * 2 ^ k) 1000000"
  from binary_exponent_le [OF assms] have e: "binary_exponent \<bar>a\<bar> 1000000 \<le> 33" .
  then have k19: "19 \<le> k" and kk: "52 - binary_exponent \<bar>a\<bar> 1000000 = int k"
    by (simp_all add: k_def)
  then have nk: "nat (- (52 - binary_exponent \<bar>a\<bar> 1000000)) = 0" by simp
  have td: "true_divide a 1000000 = real_of_int (sgn a * m) / 2 ^ k"
    using False by (simp add: true_divide_def Let_def kk nk m_def)
  have p: "(2::int) ^ 20 \<le> 2 * 2 ^ k"
  proof -
    have "(2::int) ^ 19 \<le> 2 ^ k" using k19 by (rule power_increasing) simp
    then show ?thesis by simp
  qed
  have pos: "(0::real) < 2 ^ k" by simp
  have M: "(0::int) < 1000000" by simp
  show ?thesis
  proof (cases "0 < a")
    case True
    then have td': "true_divide a 1000000 = real_of_int m / 2 ^ k" using td by simp
    have "real_of_int N \<le> real_of_int m / 2 ^ k \<longleftrightarrow> real_of_int N * 2 ^ k \<le> real_of_int m"
      using pos by (simp add: pos_le_divide_eq)
    also have "\<dots> \<longleftrightarrow> N * 2 ^ k \<le> m"
    proof -
      have "real_of_int N * 2 ^ k \<le> real_of_int m \<longleftrightarrow>
              real_of_int (N * 2 ^ k) \<le> real_of_int m" by simp
      also have "\<dots> \<longleftrightarrow> N * 2 ^ k \<le> m" by (rule of_int_le_iff)
      finally show ?thesis .
    qed
    also have "\<dots> \<longleftrightarrow> N * 1000000 \<le> a"
    proof
      assume l: "N * 2 ^ k \<le> m"
      show "N * 1000000 \<le> a"
      proof (rule ccontr)
        assume "\<not> N * 1000000 \<le> a"
        then have "a + 1 \<le> N * 1000000" by simp
        then have "(a + 1) * 2 ^ k \<le> N * 1000000 * 2 ^ k" by (simp add: mult_right_mono)
        with p have "2 * (a * 2 ^ k) < (2 * (N * 2 ^ k) - 1) * 1000000"
          by (simp add: algebra_simps)
        from round_half_even_less [OF M this] True l show False by (simp add: m_def)
      qed
    next
      assume "N * 1000000 \<le> a"
      then have "N * 1000000 * 2 ^ k \<le> a * 2 ^ k" by (simp add: mult_right_mono)
      then have "(N * 2 ^ k) * 1000000 \<le> a * 2 ^ k" by (simp add: algebra_simps)
      from round_half_even_ge [OF M this] True show "N * 2 ^ k \<le> m" by (simp add: m_def)
    qed
    finally show ?thesis using td' by simp
  next
    case neg: False
    with False have an: "a < 0" by simp
    then have td': "true_divide a 1000000 = - real_of_int m / 2 ^ k" using td by simp
    have "real_of_int N \<le> - real_of_int m / 2 ^ k \<longleftrightarrow> real_of_int N * 2 ^ k \<le> - real_of_int m"
      by (rule pos_le_divide_eq [OF pos])
    also have "\<dots> \<longleftrightarrow> m \<le> - N * 2 ^ k"
    proof -
      have "real_of_int N * 2 ^ k \<le> - real_of_int m \<longleftrightarrow>
              real_of_int (N * 2 ^ k) \<le> real_of_int (- m)" by simp
      also have "\<dots> \<longleftrightarrow> N * 2 ^ k \<le> - m" by (rule of_int_le_iff)
      also have "\<dots> \<longleftrightarrow> m \<le> - N * 2 ^ k" by auto
      finally show ?thesis .
    qed
    also have "\<dots> \<longleftrightarrow> N * 1000000 \<le> a"
    proof
      assume l: "m \<le> - N * 2 ^ k"
      show "N * 1000000 \<le> a"
      proof (rule ccontr)
        assume "\<not> N * 1000000 \<le> a"
        then have "- N * 1000000 + 1 \<le> - a" by simp
        then have "(- N * 1000000 + 1) * 2 ^ k \<le> (- a) * 2 ^ k" by (rule mult_right_mono) simp
        with p have "(2 * (- N * 2 ^ k) + 1) * 1000000 < 2 * ((- a) * 2 ^ k)"
          by (simp add: algebra_simps)
        from round_half_even_greater [OF M this] an l show False by (simp add: m_def)
      qed
    next
      assume "N * 1000000 \<le> a"
      then have "- a \<le> - N * 1000000" by simp
      then have "(- a) * 2 ^ k \<le> (- N * 1000000) * 2 ^ k" by (rule mult_right_mono) simp
      then have "(- a) * 2 ^ k \<le> (- N * 2 ^ k) * 1000000" by (simp add: algebra_simps)
      from round_half_even_le [OF M this] an show "m \<le> - N * 2 ^ k" by (simp add: m_def)
    qed
    finally show ?thesis using td' by simp
  qed
qed

lemma is_due_Some:
  assumes "last_run j = Some t" and "\<bar>now - t\<bar> < 2 ^ 34 * 1000000"
  shows "fst (is_due now j) \<longleftrightarrow> interval_minutes j * 60 * 1000000 \<le> now - t"
  using assms(1) true_divide_ge_iff [OF assms(2), of "interval_minutes j * 60"]
  by (simp add: is_due_def total_seconds_def Let_def)

lemma binary_exponent_example: "binary_exponent 17179869239999999 1000000 = 34"
  by (simp add: binary_exponent_def bit_length.simps Let_def)

lemma total_seconds_example: "total_seconds 17179869239999999 = 17179869240"
  by (simp add: total_seconds_def true_divide_def binary_exponent_example round_half_even_def
      Let_def)

subsection \<open>\<^verbatim>\<open>is_due\<close> and \<^verbatim>\<open>mark_run\<close>\<close>

text \<open>
  C5, as amended. \<^verbatim>\<open>is_due\<close> leaves the job as it was, and \<^verbatim>\<open>mark_run\<close> sets
  \<^verbatim>\<open>last_run\<close> to the clock's reading and nothing else. A job whose \<^verbatim>\<open>last_run\<close> is unset
  is due, so a job that never ran is due whatever its interval. With \<^verbatim>\<open>last_run\<close> set
  to \<open>t\<close>, and the clock less than \<open>2 ^ 34\<close> seconds (some 544 years) away from \<open>t\<close>, the
  job is due at \<open>now\<close> exactly when \<open>now - t\<close> has reached \<^verbatim>\<open>interval_minutes * 60\<close>
  seconds; so after \<^verbatim>\<open>mark_run\<close> at \<open>t0\<close> it is not due until the interval has elapsed. All
  times are in microseconds.
\<close>

theorem is_due_mark_run:
  "snd (is_due now j) = j
   \<and> mark_run t0 j = j\<lparr>last_run := Some t0\<rparr>
   \<and> (last_run j = None \<longrightarrow> fst (is_due now j))
   \<and> fst (is_due now (init_job jid jtype en iv cfg ags))
   \<and> (\<forall>t. last_run j = Some t \<and> \<bar>now - t\<bar> < 2 ^ 34 * 1000000 \<longrightarrow>
         (fst (is_due now j) \<longleftrightarrow> interval_minutes j * 60 * 1000000 \<le> now - t))
   \<and> (\<bar>now - t0\<bar> < 2 ^ 34 * 1000000 \<longrightarrow>
         (fst (is_due now (mark_run t0 j)) \<longleftrightarrow> interval_minutes j * 60 * 1000000 \<le> now - t0))"
proof -
  have a: "snd (is_due now j) = j" by (simp add: is_due_def Let_def split: option.splits)
  have b: "mark_run t0 j = j\<lparr>last_run := Some t0\<rparr>" by (simp add: mark_run_def)
  have c: "last_run j = None \<longrightarrow> fst (is_due now j)" by (simp add: is_due_def)
  have d: "fst (is_due now (init_job jid jtype en iv cfg ags))"
    by (simp add: is_due_def init_job_def)
  have e: "\<forall>t. last_run j = Some t \<and> \<bar>now - t\<bar> < 2 ^ 34 * 1000000 \<longrightarrow>
         (fst (is_due now j) \<longleftrightarrow> interval_minutes j * 60 * 1000000 \<le> now - t)"
    using is_due_Some by blast
  have f: "\<bar>now - t0\<bar> < 2 ^ 34 * 1000000 \<longrightarrow>
         (fst (is_due now (mark_run t0 j)) \<longleftrightarrow> interval_minutes j * 60 * 1000000 \<le> now - t0)"
    using is_due_Some [of "mark_run t0 j" t0 now] by (simp add: mark_run_def)
  from a b c d e f show ?thesis by blast
qed

theorem is_due_mark_run_witness:
  "last_run (upload_job None) = None
   \<and> fst (is_due 7 (upload_job None))
   \<and> \<bar>299999999 - (0::int)\<bar> < 2 ^ 34 * 1000000
   \<and> \<not> fst (is_due 299999999 (mark_run 0 (upload_job None)))
   \<and> \<bar>300000000 - (0::int)\<bar> < 2 ^ 34 * 1000000
   \<and> fst (is_due 300000000 (mark_run 0 (upload_job None)))
   \<and> snd (is_due 300000000 (mark_run 0 (upload_job None))) = mark_run 0 (upload_job None)"
proof -
  have n: "last_run (upload_job None) = None" by (simp add: upload_job_def init_job_def)
  have i: "interval_minutes (upload_job None) = 5" by (simp add: upload_job_def init_job_def)
  have b1: "\<bar>299999999 - (0::int)\<bar> < 2 ^ 34 * 1000000" by simp
  have b2: "\<bar>300000000 - (0::int)\<bar> < 2 ^ 34 * 1000000" by simp
  from is_due_mark_run [of 7 "upload_job None" 0, THEN conjunct2, THEN conjunct2, THEN conjunct1] n
  have d0: "fst (is_due 7 (upload_job None))" by simp
  from is_due_mark_run [of 299999999 "upload_job None" 0, THEN conjunct2, THEN conjunct2,
      THEN conjunct2, THEN conjunct2, THEN conjunct2] b1 i
  have d1: "\<not> fst (is_due 299999999 (mark_run 0 (upload_job None)))" by simp
  from is_due_mark_run [of 300000000 "upload_job None" 0, THEN conjunct2, THEN conjunct2,
      THEN conjunct2, THEN conjunct2, THEN conjunct2] b2 i
  have d2: "fst (is_due 300000000 (mark_run 0 (upload_job None)))" by simp
  from is_due_mark_run [of 300000000 "mark_run 0 (upload_job None)" 0, THEN conjunct1]
  have d3: "snd (is_due 300000000 (mark_run 0 (upload_job None))) = mark_run 0 (upload_job None)" .
  from n d0 b1 d1 b2 d2 d3 show ?thesis by blast
qed

text \<open>
  From \<open>2 ^ 34\<close> seconds on the doubles are too far apart. A job with an interval of
  286331154 minutes (17179869240 seconds) is due one microsecond before the interval has
  elapsed: \<^verbatim>\<open>total_seconds\<close> rounds 17179869239.999999 to 17179869240.0.
\<close>

theorem is_due_rounding_counterexample:
  "fst (is_due 17179869239999999
          (mark_run 0 (init_job ''upload'' ''session_upload'' True 286331154 Map.empty Map.empty)))
   \<and> (17179869239999999::int) - 0 < 286331154 * 60 * 1000000"
  by (simp add: is_due_def mark_run_def init_job_def total_seconds_example)


section \<open>The scheduler's guard\<close>

text \<open>
  C6, as amended. Let \<open>out\<close> be what \<^verbatim>\<open>job.run\<close> does. If it raises an instance of
  \<^verbatim>\<open>Exception\<close> with text \<open>e\<close>, \<^verbatim>\<open>run_job\<close> returns the failed result with
  \<^verbatim>\<open>success = False\<close>, message \<^verbatim>\<open>Exception: e\<close>, no items and \<open>e\<close> as the sole error; if
  it returns a result, \<^verbatim>\<open>run_job\<close> returns that result. In both cases \<^verbatim>\<open>mark_run\<close> is
  called exactly once and the job's \<^verbatim>\<open>last_run\<close> is the clock's reading. An exception
  that is not an instance of \<^verbatim>\<open>Exception\<close> (\<^verbatim>\<open>KeyboardInterrupt\<close>, \<^verbatim>\<open>SystemExit\<close>) leaves
  \<^verbatim>\<open>run_job\<close> as it came, with the job unchanged and \<^verbatim>\<open>mark_run\<close> not called.
\<close>

theorem run_job_catches_Exception:
  assumes "job_run j endpoint api_key (log_msg INFO (''Running job: '' @ id' j) w) = (out, w1)"
  shows "(\<forall>e. out = Inl (Exception e) \<longrightarrow>
            fst (run_job job_run now j endpoint api_key w) =
              Inr \<lparr>job_id = id' j, success = False, message = ''Exception: '' @ e,
                    items_processed = 0, errors = [e]\<rparr>)
       \<and> (\<forall>r. out = Inr r \<longrightarrow> fst (run_job job_run now j endpoint api_key w) = Inr r)
       \<and> ((\<forall>e. out \<noteq> Inl (BaseException e)) \<longrightarrow>
            fst (snd (run_job job_run now j endpoint api_key w)) = mark_run now j \<and>
            mark_run_calls (trace (snd (snd (run_job job_run now j endpoint api_key w)))) =
              mark_run_calls (trace w1) + 1)
       \<and> (\<forall>e. out = Inl (BaseException e) \<longrightarrow>
            run_job job_run now j endpoint api_key w = (Inl (BaseException e), j, w1))"
proof (cases out)
  case (Inr r)
  with assms show ?thesis
    by (simp add: run_job_def Let_def call_mark_run_def trace_emit trace_log_msg
        mark_run_calls_log_errors mark_run_calls_append) (simp add: mark_run_calls_def)
next
  case (Inl x)
  show ?thesis
  proof (cases x)
    case (Exception e)
    with Inl assms show ?thesis
      by (simp add: run_job_def Let_def call_mark_run_def trace_emit trace_log_msg
        mark_run_calls_append) (simp add: mark_run_calls_def)
  next
    case (BaseException e)
    with Inl assms show ?thesis by (simp add: run_job_def Let_def)
  qed
qed


theorem run_job_catches_Exception_witness:
  "raising_run (Exception ''boom'') (upload_job None) ''http://nexus'' ''k''
       (log_msg INFO (''Running job: '' @ id' (upload_job None)) (one_dir [] Missing NoArchive))
     = (Inl (Exception ''boom''),
        log_msg INFO (''Running job: '' @ id' (upload_job None)) (one_dir [] Missing NoArchive))
   \<and> fst (run_job (raising_run (Exception ''boom'')) 42 (upload_job None) ''http://nexus'' ''k''
            (one_dir [] Missing NoArchive))
       = Inr \<lparr>job_id = ''upload'', success = False, message = ''Exception: boom'',
               items_processed = 0, errors = [''boom'']\<rparr>
   \<and> last_run (fst (snd (run_job (raising_run (Exception ''boom'')) 42 (upload_job None)
            ''http://nexus'' ''k'' (one_dir [] Missing NoArchive)))) = Some 42
   \<and> mark_run_calls (trace (snd (snd (run_job (raising_run (Exception ''boom'')) 42
            (upload_job None) ''http://nexus'' ''k'' (one_dir [] Missing NoArchive))))) = 1"
proof -
  have h: "raising_run (Exception ''boom'') (upload_job None) ''http://nexus'' ''k''
       (log_msg INFO (''Running job: '' @ id' (upload_job None)) (one_dir [] Missing NoArchive))
     = (Inl (Exception ''boom''),
        log_msg INFO (''Running job: '' @ id' (upload_job None)) (one_dir [] Missing NoArchive))"
    by (simp add: raising_run_def)
  from run_job_catches_Exception [where job_run = "raising_run (Exception ''boom'')"
      and j = "upload_job None" and endpoint = "''http://nexus''" and api_key = "''k''"
      and w = "one_dir [] Missing NoArchive" and out = "Inl (Exception ''boom'')"
      and ?w1.0 = "log_msg INFO (''Running job: '' @ id' (upload_job None))
                     (one_dir [] Missing NoArchive)" and now = 42, OF h] h
  show ?thesis
    by (simp add: mark_run_def upload_job_def init_job_def one_dir_def log_msg_def emit_def
        mark_run_calls_def)
qed


text \<open>
  C6 as stated fails for an exception outside \<^verbatim>\<open>Exception\<close>: with a \<^verbatim>\<open>run\<close> that raises
  \<^verbatim>\<open>KeyboardInterrupt\<close>, \<^verbatim>\<open>run_job\<close> returns no result but lets the exception through,
  \<^verbatim>\<open>last_run\<close> stays unset and \<^verbatim>\<open>mark_run\<close> is not called.
\<close>

theorem run_job_interrupt_counterexample:
  "fst (raising_run (BaseException ''KeyboardInterrupt'') (upload_job None) ''http://nexus'' ''k''
          (log_msg INFO ''Running job: upload'' (one_dir [] Missing NoArchive)))
     = Inl (BaseException ''KeyboardInterrupt'')
   \<and> fst (run_job (raising_run (BaseException ''KeyboardInterrupt'')) 0 (upload_job None)
          ''http://nexus'' ''k'' (one_dir [] Missing NoArchive))
     = Inl (BaseException ''KeyboardInterrupt'')
   \<and> fst (run_job (raising_run (BaseException ''KeyboardInterrupt'')) 0 (upload_job None)
          ''http://nexus'' ''k'' (one_dir [] Missing NoArchive))
     \<noteq> Inr \<lparr>job_id = ''upload'', success = False, message = ''Exception: KeyboardInterrupt'',
              items_processed = 0, errors = [''KeyboardInterrupt'']\<rparr>
   \<and> last_run (fst (snd (run_job (raising_run (BaseException ''KeyboardInterrupt'')) 0
          (upload_job None) ''http://nexus'' ''k'' (one_dir [] Missing NoArchive)))) = None
   \<and> mark_run_calls (trace (snd (snd (run_job (raising_run (BaseException ''KeyboardInterrupt'')) 0
          (upload_job None) ''http://nexus'' ''k'' (one_dir [] Missing NoArchive))))) = 0
   \<and> mark_run_calls (trace (snd (snd (run_job (raising_run (BaseException ''KeyboardInterrupt'')) 0
          (upload_job None) ''http://nexus'' ''k'' (one_dir [] Missing NoArchive))))) \<noteq> 1"
  by (simp add: run_job_def raising_run_def upload_job_def init_job_def one_dir_def Let_def
      log_msg_def emit_def mark_run_calls_def)

section \<open>The result of the session-upload job\<close>

text \<open>
  C4. Whenever \<^verbatim>\<open>run\<close> returns a result, its \<^verbatim>\<open>success\<close> is true exactly when the errors
  list is empty or at least one item was processed.
\<close>

theorem run_success_iff:
  assumes "fst (run srv self endpoint api_key w) = Inr r"
  shows "success r \<longleftrightarrow> (errors r = [] \<or> items_processed r > 0)"
proof (cases "(case config self ''agents'' of None \<Rightarrow> [] | Some v \<Rightarrow> v) = []")
  case True
  then have "r = \<lparr>job_id = id' self, success = True, message = ''No agents configured'',
                 items_processed = 0, errors = []\<rparr>"
    using assms by (simp add: run_def)
  then show ?thesis by simp
next
  case False
  obtain res w1 where ra: "run_agents srv self endpoint api_key
      (case config self ''agents'' of None \<Rightarrow> [] | Some v \<Rightarrow> v) (0, []) w = (res, w1)"
    by (cases "run_agents srv self endpoint api_key
      (case config self ''agents'' of None \<Rightarrow> [] | Some v \<Rightarrow> v) (0, []) w") blast
  show ?thesis
  proof (cases res)
    case (Inl x)
    with False ra assms show ?thesis by (simp add: run_def)
  next
    case (Inr acc)
    obtain t e where acc: "acc = (t, e)" by (cases acc) blast
    with False ra Inr assms show ?thesis by (auto simp add: run_def Let_def)
  qed
qed


theorem run_success_iff_witness:
  "fst (run (server_status 500 ''server error'') (upload_job (Some [''a1''])) ''http://nexus'' ''k''
          (one_dir [(file_2222, RegularFile 5120 (Some ''{}''))] (Dict []) NoArchive))
     = Inr refused_result
   \<and> (success refused_result \<longleftrightarrow>
        (errors refused_result = [] \<or> items_processed refused_result > 0))"
proof -
  have h: "fst (run (server_status 500 ''server error'') (upload_job (Some [''a1'']))
                 ''http://nexus'' ''k''
                 (one_dir [(file_2222, RegularFile 5120 (Some ''{}''))] (Dict []) NoArchive))
            = Inr refused_result"
    by (simp add: eval_defs refused_result_def)
  from run_success_iff [OF h] h show ?thesis by simp
qed

text \<open>
  C8. With no \<^verbatim>\<open>agents\<close> option in the job's config, or an empty sequence, \<^verbatim>\<open>run\<close>
  returns the successful result with no items and no errors, and the world is as it was:
  no directory is read or changed and nothing is sent or logged.
\<close>

theorem run_no_agents:
  assumes "config self ''agents'' = None \<or> config self ''agents'' = Some []"
  shows "run srv self endpoint api_key w =
           (Inr \<lparr>job_id = id' self, success = True, message = ''No agents configured'',
                 items_processed = 0, errors = []\<rparr>, w)"
  using assms by (auto simp: run_def)

theorem run_no_agents_witness:
  "config (upload_job None) ''agents'' = None
   \<and> config (upload_job (Some [])) ''agents'' = Some []
   \<and> run (server_status 500 []) (upload_job None) ''http://nexus'' ''k''
         (one_dir [(file_2222, RegularFile 5120 (Some ''{}''))] (Dict []) NoArchive)
       = (Inr \<lparr>job_id = ''upload'', success = True, message = ''No agents configured'',
                items_processed = 0, errors = []\<rparr>,
          one_dir [(file_2222, RegularFile 5120 (Some ''{}''))] (Dict []) NoArchive)
   \<and> run (server_status 500 []) (upload_job (Some [])) ''http://nexus'' ''k''
         (one_dir [(file_2222, RegularFile 5120 (Some ''{}''))] (Dict []) NoArchive)
       = (Inr \<lparr>job_id = ''upload'', success = True, message = ''No agents configured'',
                items_processed = 0, errors = []\<rparr>,
          one_dir [(file_2222, RegularFile 5120 (Some ''{}''))] (Dict []) NoArchive)"
proof -
  have n: "config (upload_job None) ''agents'' = None"
    by (simp add: upload_job_def init_job_def)
  have e: "config (upload_job (Some [])) ''agents'' = Some []"
    by (simp add: upload_job_def init_job_def)
  from run_no_agents [of "upload_job None"] run_no_agents [of "upload_job (Some [])"] n e
  show ?thesis by (simp add: upload_job_def init_job_def)
qed

section \<open>Active sessions and candidates\<close>






text \<open>
  C2 fails on the code. \<^verbatim>\<open>_find_completed_sessions\<close> keeps a file only if
  \<^verbatim>\<open>_extract_session_id\<close> yields an id, so a file with a malformed name never reaches the
  loop of \<^verbatim>\<open>_process_agent\<close>, whose branch \<^verbatim>\<open>Invalid session filename\<close> is dead. For a
  directory holding a name that is too short and a name with 3 hyphens in its first 36
  characters, both matching \<^verbatim>\<open>*.jsonl*\<close>, the job returns success with an empty errors
  list; the directory is as it was and only a debug line is logged.
\<close>

theorem invalid_filename_silently_skipped:
  "glob_jsonl file_short \<and> extract_session_id file_short = None
   \<and> glob_jsonl file_3hyphens \<and> extract_session_id file_3hyphens = None
   \<and> run (server_status 200 []) (upload_job (Some [''a1''])) ''http://nexus'' ''k''
        (one_dir [(file_short, RegularFile 10 (Some ''x'')),
                  (file_3hyphens, RegularFile 10 (Some ''y''))] (Dict []) NoArchive)
     = (Inr \<lparr>job_id = ''upload'', success = True, message = ''Uploaded 0 sessions'',
              items_processed = 0, errors = []\<rparr>,
        log_msg DEBUG ''No completed sessions for a1''
          (one_dir [(file_short, RegularFile 10 (Some ''x'')),
                    (file_3hyphens, RegularFile 10 (Some ''y''))] (Dict []) NoArchive))"
  by (simp add: eval_defs file_short_def file_3hyphens_def)


section \<open>The size limit\<close>

text \<open>
  C3. The limit is 10,485,760 bytes. For a file of exactly that size whose text can be
  read, \<^verbatim>\<open>_upload_session\<close> sends the request. For a larger file it returns
  \<^verbatim>\<open>False\<close> with the file system unchanged and no request sent, and the loop of
  \<^verbatim>\<open>_process_agent\<close> records the item as \<^verbatim>\<open>Upload failed\<close>, again with the file system
  unchanged (the file is in place, nothing is archived) and no request sent.
\<close>

theorem size_boundary:
  assumes "lookup_file sdir name w = Some (RegularFile sz content)"
  shows "MAX_TRANSCRIPT_BYTES = 10485760
   \<and> (sz = 10485760 \<longrightarrow>
        (\<forall>text. content = Some text \<longrightarrow>
           (\<exists>evs. trace (snd (upload_session srv agent_id session_id sdir name endpoint api_key w)) =
              trace w @ Post (session_request endpoint api_key agent_id session_id text) # evs)))
   \<and> (sz > 10485760 \<longrightarrow>
        fst (upload_session srv agent_id session_id sdir name endpoint api_key w) = Inr False
        \<and> fs (snd (upload_session srv agent_id session_id sdir name endpoint api_key w)) = fs w
        \<and> posts (trace (snd (upload_session srv agent_id session_id sdir name endpoint api_key w)))
            = posts (trace w)
        \<and> (extract_session_id name = Some session_id \<longrightarrow>
             fst (process_session srv agent_id sdir endpoint api_key name acc w) =
               Inr (fst acc, snd acc @ [upload_failed_error session_id])
             \<and> fs (snd (process_session srv agent_id sdir endpoint api_key name acc w)) = fs w
             \<and> posts (trace (snd (process_session srv agent_id sdir endpoint api_key name acc w)))
                 = posts (trace w)))"
proof -
  have m: "MAX_TRANSCRIPT_BYTES = 10485760" by (simp add: MAX_TRANSCRIPT_BYTES_def)
  have a: "sz = 10485760 \<longrightarrow>
        (\<forall>text. content = Some text \<longrightarrow>
           (\<exists>evs. trace (snd (upload_session srv agent_id session_id sdir name endpoint api_key w)) =
              trace w @ Post (session_request endpoint api_key agent_id session_id text) # evs))"
    using assms upload_session_posts [of sdir name w sz] m by simp
  have b: "sz > 10485760 \<longrightarrow>
        fst (upload_session srv agent_id session_id sdir name endpoint api_key w) = Inr False
        \<and> fs (snd (upload_session srv agent_id session_id sdir name endpoint api_key w)) = fs w
        \<and> posts (trace (snd (upload_session srv agent_id session_id sdir name endpoint api_key w)))
            = posts (trace w)"
    using assms m
    by (simp add: upload_session_oversized fs_log_msg trace_log_msg posts_append posts_Log)
  have c: "sz > 10485760 \<longrightarrow> extract_session_id name = Some session_id \<longrightarrow>
             fst (process_session srv agent_id sdir endpoint api_key name acc w) =
               Inr (fst acc, snd acc @ [upload_failed_error session_id])
             \<and> fs (snd (process_session srv agent_id sdir endpoint api_key name acc w)) = fs w
             \<and> posts (trace (snd (process_session srv agent_id sdir endpoint api_key name acc w)))
                 = posts (trace w)"
  proof (intro impI)
    assume big: "sz > 10485760" and sid: "extract_session_id name = Some session_id"
    from sid have ne: "session_id \<noteq> []" by (rule extract_session_id_nonempty)
    from big m have big': "sz > MAX_TRANSCRIPT_BYTES" by simp
    show "fst (process_session srv agent_id sdir endpoint api_key name acc w) =
               Inr (fst acc, snd acc @ [upload_failed_error session_id])
             \<and> fs (snd (process_session srv agent_id sdir endpoint api_key name acc w)) = fs w
             \<and> posts (trace (snd (process_session srv agent_id sdir endpoint api_key name acc w)))
                 = posts (trace w)"
      using sid ne upload_session_oversized [OF assms big']
      by (simp add: process_session_def fs_log_msg trace_log_msg posts_append posts_Log)
  qed
  from m a b c show ?thesis by blast
qed


theorem size_boundary_witness:
  "lookup_file ''/s'' file_2222
       (one_dir [(file_2222, RegularFile 10485760 (Some ''{}'')),
                 (file_zzzz, RegularFile 10485761 (Some ''big''))] (Dict []) NoArchive)
     = Some (RegularFile 10485760 (Some ''{}''))
   \<and> posts (trace (snd (upload_session (server_status 200 []) ''a1''
         ''22222222-2222-2222-2222-222222222222'' ''/s'' file_2222 ''http://nexus'' ''k''
         (one_dir [(file_2222, RegularFile 10485760 (Some ''{}'')),
                   (file_zzzz, RegularFile 10485761 (Some ''big''))] (Dict []) NoArchive))))
       = [session_request ''http://nexus'' ''k'' ''a1'' ''22222222-2222-2222-2222-222222222222'' ''{}'']
   \<and> lookup_file ''/s'' file_zzzz
       (one_dir [(file_2222, RegularFile 10485760 (Some ''{}'')),
                 (file_zzzz, RegularFile 10485761 (Some ''big''))] (Dict []) NoArchive)
     = Some (RegularFile 10485761 (Some ''big''))
   \<and> fst (upload_session (server_status 200 []) ''a1''
         ''zzzzzzzz-zzzz-zzzz-zzzz-zzzzzzzzzzzz'' ''/s'' file_zzzz ''http://nexus'' ''k''
         (one_dir [(file_2222, RegularFile 10485760 (Some ''{}'')),
                   (file_zzzz, RegularFile 10485761 (Some ''big''))] (Dict []) NoArchive))
       = Inr False
   \<and> posts (trace (snd (upload_session (server_status 200 []) ''a1''
         ''zzzzzzzz-zzzz-zzzz-zzzz-zzzzzzzzzzzz'' ''/s'' file_zzzz ''http://nexus'' ''k''
         (one_dir [(file_2222, RegularFile 10485760 (Some ''{}'')),
                   (file_zzzz, RegularFile 10485761 (Some ''big''))] (Dict []) NoArchive))))
       = []"
proof -
  have h1: "lookup_file ''/s'' file_2222
       (one_dir [(file_2222, RegularFile 10485760 (Some ''{}'')),
                 (file_zzzz, RegularFile 10485761 (Some ''big''))] (Dict []) NoArchive)
     = Some (RegularFile 10485760 (Some ''{}''))"
    by (simp add: lookup_file_def one_dir_def file_2222_def file_zzzz_def)
  have h2: "lookup_file ''/s'' file_zzzz
       (one_dir [(file_2222, RegularFile 10485760 (Some ''{}'')),
                 (file_zzzz, RegularFile 10485761 (Some ''big''))] (Dict []) NoArchive)
     = Some (RegularFile 10485761 (Some ''big''))"
    by (simp add: lookup_file_def one_dir_def file_2222_def file_zzzz_def)
  have t: "trace (one_dir [(file_2222, RegularFile 10485760 (Some ''{}'')),
                 (file_zzzz, RegularFile 10485761 (Some ''big''))] (Dict []) NoArchive) = []"
    by (simp add: one_dir_def)
  from size_boundary [OF h1, of "server_status 200 []" "''a1''"
         "''22222222-2222-2222-2222-222222222222''" "''http://nexus''" "''k''",
         THEN conjunct2, THEN conjunct1]
  have p1: "posts (trace (snd (upload_session (server_status 200 []) ''a1''
         ''22222222-2222-2222-2222-222222222222'' ''/s'' file_2222 ''http://nexus'' ''k''
         (one_dir [(file_2222, RegularFile 10485760 (Some ''{}'')),
                   (file_zzzz, RegularFile 10485761 (Some ''big''))] (Dict []) NoArchive))))
       = [session_request ''http://nexus'' ''k'' ''a1'' ''22222222-2222-2222-2222-222222222222'' ''{}'']"
    using h1 t
    by (simp add: upload_session_def server_status_def MAX_TRANSCRIPT_BYTES_def Let_def
        trace_emit posts_def)
  from size_boundary [OF h2, of "server_status 200 []" "''a1''"
         "''zzzzzzzz-zzzz-zzzz-zzzz-zzzzzzzzzzzz''" "''http://nexus''" "''k''",
         THEN conjunct2, THEN conjunct2] t
  have p2: "fst (upload_session (server_status 200 []) ''a1''
         ''zzzzzzzz-zzzz-zzzz-zzzz-zzzzzzzzzzzz'' ''/s'' file_zzzz ''http://nexus'' ''k''
         (one_dir [(file_2222, RegularFile 10485760 (Some ''{}'')),
                   (file_zzzz, RegularFile 10485761 (Some ''big''))] (Dict []) NoArchive))
       = Inr False
   \<and> posts (trace (snd (upload_session (server_status 200 []) ''a1''
         ''zzzzzzzz-zzzz-zzzz-zzzz-zzzzzzzzzzzz'' ''/s'' file_zzzz ''http://nexus'' ''k''
         (one_dir [(file_2222, RegularFile 10485760 (Some ''{}'')),
                   (file_zzzz, RegularFile 10485761 (Some ''big''))] (Dict []) NoArchive))))
       = []"
    by (simp add: posts_def)
  from h1 h2 p1 p2 show ?thesis by simp
qed

section \<open>Effects of the file operations\<close>

text \<open>
  What each operation does to the observations of a world: the entry of a name in a
  sessions directory, its entry in the archive, whether the archive can be used, the
  active ids, and the number of moves in the trace.
\<close>

lemma map_of_filter_fst:
  "map_of (filter (\<lambda>e. fst e \<noteq> g) es) m = (if m = g then None else map_of es m)"
  by (induction es) auto

lemma moves_append: "moves (xs @ ys) = moves xs + moves ys"
  by (simp add: moves_def)

lemma moves_emit_Log: "moves (trace (log_msg l m w)) = moves (trace w)"
  by (simp add: trace_log_msg moves_def)

lemma lookup_file_log_msg: "lookup_file sdir m (log_msg l t w) = lookup_file sdir m w"
  by (simp add: lookup_file_def fs_log_msg)

lemma archived_file_log_msg: "archived_file sdir m (log_msg l t w) = archived_file sdir m w"
  by (simp add: archived_file_def fs_log_msg)



lemma can_archive_fs: "fs w' = fs w \<Longrightarrow> can_archive sdir m w' = can_archive sdir m w"
  by (simp add: can_archive_def destination_taken_def archive_usable_def)

lemma can_archive_log_msg: "can_archive sdir m (log_msg l t w) = can_archive sdir m w"
  by (rule can_archive_fs) (rule fs_log_msg)

lemma map_of_put: "map_of (put g nd files) m = (if m = g then Some nd else map_of files m)"
  by (simp add: put_def map_of_filter_fst)


lemma find_completed_sessions_fs:
  "fs w' = fs w \<Longrightarrow> find_completed_sessions sdir a w' = find_completed_sessions sdir a w"
  by (simp add: find_completed_sessions_def)

subsection \<open>Creating the archive directory\<close>

lemma mkdir_archive_ok: "fst (mkdir_archive sdir w) = Inr () \<longleftrightarrow> archive_usable sdir w"
  by (simp add: mkdir_archive_def archive_usable_def split: option.splits archive_node.splits)

lemma mkdir_archive_is_dir:
  "archive_usable sdir w \<Longrightarrow> archive_is_dir sdir (snd (mkdir_archive sdir w))"
  by (simp add: mkdir_archive_def archive_usable_def archive_is_dir_def fs_emit
      split: option.splits archive_node.splits)

lemma mkdir_archive_fail: "\<not> archive_usable sdir w \<Longrightarrow> snd (mkdir_archive sdir w) = w"
  by (simp add: mkdir_archive_def archive_usable_def split: option.splits archive_node.splits)

lemma mkdir_archive_lookup:
  "lookup_file sdir' m (snd (mkdir_archive sdir w)) = lookup_file sdir' m w"
  by (simp add: mkdir_archive_def lookup_file_def fs_emit split: option.splits archive_node.splits)

lemma mkdir_archive_archived:
  "archived_file sdir' m (snd (mkdir_archive sdir w)) = archived_file sdir' m w"
  by (simp add: mkdir_archive_def archived_file_def fs_emit split: option.splits archive_node.splits)



lemma mkdir_archive_moves: "moves (trace (snd (mkdir_archive sdir w))) = moves (trace w)"
  by (simp add: mkdir_archive_def trace_emit moves_def split: option.splits archive_node.splits)

lemma mkdir_archive_taken:
  "destination_taken sdir' m (snd (mkdir_archive sdir w)) = destination_taken sdir' m w"
  by (simp add: mkdir_archive_def destination_taken_def fs_emit
      split: option.splits archive_node.splits)

lemma mkdir_archive_blocked:
  "\<not> archive_usable sdir w \<Longrightarrow> \<exists>e. mkdir_archive sdir w = (Inl (Exception e), w)"
  by (simp add: mkdir_archive_def archive_usable_def no_such_file_def file_exists_def
      split: option.splits archive_node.splits)

lemma mkdir_archive_there: "archive_is_dir sdir w \<Longrightarrow> mkdir_archive sdir w = (Inr (), w)"
  by (simp add: mkdir_archive_def archive_is_dir_def split: option.splits archive_node.splits)

lemma destination_taken_is_dir: "destination_taken sdir g w \<Longrightarrow> archive_is_dir sdir w"
  by (simp add: destination_taken_def archive_is_dir_def split: option.splits archive_node.splits)

subsection \<open>Moving a file\<close>

lemma holds_iff:
  "holds name x \<longleftrightarrow> (\<exists>inner. x = Some (Directory inner) \<and> map_of inner name \<noteq> None)"
  by (cases "(name, x)" rule: holds.cases) auto

lemma inside_file: "is_file nd \<Longrightarrow> inside name (Some nd) = Some nd"
  by (cases nd) simp_all

text \<open>
  What \<^verbatim>\<open>shutil.move\<close> does: it raises an \<^verbatim>\<open>Exception\<close> and changes nothing, or it
  takes the entry out of the listing into a new listing of the archive.
\<close>

lemma move_file_cases:
  obtains
    (fail) e where "move_file g sdir w = (Inl (Exception e), w)"
      and "archive_is_dir sdir w \<and> (\<exists>sz c. lookup_file sdir g w = Some (RegularFile sz c)) \<longrightarrow>
             destination_taken sdir g w"
  | (ok) d nd files real_dst where "fs w sdir = Some d" and "map_of (entries d) g = Some nd"
      and "move_file g sdir w = (Inr (), rename_entry sdir g d files real_dst w)"
      and "archive d \<noteq> ArchiveNotDir"
      and "\<not> destination_taken sdir g w"
      and "\<And>m. m \<noteq> g \<Longrightarrow> holds m (map_of files m) = destination_taken sdir m w"
      and "\<And>m. m \<noteq> g \<Longrightarrow> inside m (map_of files m) = archived_file sdir m w"
      and "is_file nd \<Longrightarrow> inside g (map_of files g) = Some nd"
proof (cases "fs w sdir")
  case None
  show ?thesis
    by (rule fail [of "''[Errno 2] No such file or directory: '' @ quoted (path_join sdir g)"])
       (simp_all add: move_file_def Let_def None no_such_file_def archive_is_dir_def)
next
  case (Some d)
  note S = move_file_def Let_def Some no_such_file_def file_exists_def not_a_directory_def
    archive_is_dir_def lookup_file_def destination_taken_def archived_file_def map_of_put
    inside_file
  let ?dst = "path_join (path_join sdir ''archive'') g"
  show ?thesis
  proof (cases "map_of (entries d) g")
    case src: None
    show ?thesis
    proof (cases "holds g (case archive d of ArchiveDir files \<Rightarrow> map_of files g | _ \<Rightarrow> None)")
      case True
      show ?thesis
        by (rule fail [of "''Destination path '' @ quoted (path_join ?dst g) @ '' already exists''"])
           (use True in \<open>auto simp: S src holds_iff split: archive_node.splits\<close>)
    next
      case False
      show ?thesis
        by (rule fail [of "''[Errno 2] No such file or directory: '' @ quoted (path_join sdir g)"])
           (use False in \<open>auto simp: S src split: archive_node.splits option.splits node.splits\<close>)
    qed
  next
    case src: (Some nd)
    show ?thesis
    proof (cases "archive d")
      case NoArchive
      show ?thesis
      proof (cases nd)
        case (RegularFile sz c)
        show ?thesis
          by (rule fail [of "''[Errno 2] No such file or directory: '' @ quoted ?dst"])
             (simp_all add: S src NoArchive RegularFile)
      next
        case (Directory es)
        show ?thesis
          by (rule ok [of d nd "[(g, Directory es)]" ?dst])
             (simp_all add: S src NoArchive Directory)
      qed
    next
      case ArchiveNotDir
      show ?thesis
        by (rule fail [of "''[Errno 20] Not a directory: '' @ quoted ?dst"])
           (simp_all add: S src ArchiveNotDir)
    next
      case (ArchiveDir files)
      show ?thesis
      proof (cases "map_of files g")
        case None
        show ?thesis
          by (rule ok [of d nd "put g nd files" ?dst])
             (simp_all add: S src ArchiveDir None)
      next
        case at: (Some old)
        show ?thesis
        proof (cases old)
          case (RegularFile osz oc)
          show ?thesis
          proof (cases nd)
            case new: (RegularFile sz c)
            show ?thesis
              by (rule ok [of d nd "put g nd files" ?dst])
                 (simp_all add: S src ArchiveDir at RegularFile new)
          next
            case (Directory es)
            show ?thesis
              by (rule fail [of "''[Errno 17] File exists: '' @ quoted ?dst"])
                 (simp_all add: S src ArchiveDir at RegularFile Directory)
          qed
        next
          case (Directory inner)
          show ?thesis
          proof (cases "map_of inner g")
            case None
            show ?thesis
              by (rule ok [of d nd "put g (Directory (inner @ [(g, nd)])) files" "path_join ?dst g"])
                 (simp_all add: S src ArchiveDir at Directory None map_add_def)
          next
            case (Some x)
            show ?thesis
              by (rule fail [of "''Destination path '' @ quoted (path_join ?dst g) @ '' already exists''"])
                 (simp_all add: S src ArchiveDir at Directory Some)
          qed
        qed
      qed
    qed
  qed
qed

lemma move_file_ok:
  "archive_is_dir sdir w \<Longrightarrow> lookup_file sdir g w = Some (RegularFile sz c) \<Longrightarrow>
   fst (move_file g sdir w) = Inr () \<longleftrightarrow> \<not> destination_taken sdir g w"
  by (cases rule: move_file_cases [of g sdir w]) auto

lemma move_file_fail: "fst (move_file g sdir w) \<noteq> Inr () \<Longrightarrow> snd (move_file g sdir w) = w"
  by (cases rule: move_file_cases [of g sdir w]) auto

lemma move_file_taken_fails:
  "destination_taken sdir g w \<Longrightarrow> \<exists>e. move_file g sdir w = (Inl (Exception e), w)"
  by (cases rule: move_file_cases [of g sdir w]) auto

lemma move_file_lookup:
  "fst (move_file g sdir w) = Inr () \<Longrightarrow>
   lookup_file sdir' m (snd (move_file g sdir w)) =
     (if sdir' = sdir \<and> m = g then None else lookup_file sdir' m w)"
  by (cases rule: move_file_cases [of g sdir w])
     (auto simp: lookup_file_def fs_rename_entry map_of_filter_fst)

lemma move_file_archived:
  "fst (move_file g sdir w) = Inr () \<Longrightarrow> lookup_file sdir g w = Some (RegularFile sz c) \<Longrightarrow>
   archived_file sdir' m (snd (move_file g sdir w)) =
     (if sdir' = sdir \<and> m = g then Some (RegularFile sz c) else archived_file sdir' m w)"
proof (cases rule: move_file_cases [of g sdir w])
  case (fail e)
  assume "fst (move_file g sdir w) = Inr ()"
  with fail show ?thesis by simp
next
  case (ok d nd files real_dst)
  assume l: "lookup_file sdir g w = Some (RegularFile sz c)"
  with ok(1,2) have nd: "nd = RegularFile sz c" by (simp add: lookup_file_def)
  with ok(8) have g: "inside g (map_of files g) = Some (RegularFile sz c)" by simp
  have a: "archived_file sdir m' (snd (move_file g sdir w)) = inside m' (map_of files m')" for m'
    by (simp add: ok(3) archived_file_def fs_rename_entry)
  have b: "archived_file sdir' m (snd (move_file g sdir w)) = archived_file sdir' m w"
    if "sdir' \<noteq> sdir"
    using that by (simp add: ok(3) archived_file_def fs_rename_entry)
  show ?thesis
  proof (cases "sdir' = sdir")
    case False
    with b show ?thesis by simp
  next
    case True
    with a [of m] g ok(7) [of m] show ?thesis by (cases "m = g") simp_all
  qed
qed




lemma move_file_moves:
  "moves (trace (snd (move_file g sdir w))) =
     moves (trace w) + (if fst (move_file g sdir w) = Inr () then 1 else 0)"
  by (cases rule: move_file_cases [of g sdir w])
     (auto simp: trace_rename_entry moves_def)

subsection \<open>Archiving\<close>

lemma archive_session_unfold:
  "archive_session g sdir w =
     (if archive_usable sdir w then move_file g sdir (snd (mkdir_archive sdir w))
      else (fst (mkdir_archive sdir w), w))"
proof (cases "archive_usable sdir w")
  case True
  then have "fst (mkdir_archive sdir w) = Inr ()" by (simp add: mkdir_archive_ok)
  then show ?thesis using True
    by (cases "mkdir_archive sdir w") (simp add: archive_session_def)
next
  case False
  then have n: "fst (mkdir_archive sdir w) \<noteq> Inr ()" by (simp add: mkdir_archive_ok)
  from False have "snd (mkdir_archive sdir w) = w" by (rule mkdir_archive_fail)
  with n False show ?thesis
    by (cases "mkdir_archive sdir w"; cases "fst (mkdir_archive sdir w)")
       (auto simp: archive_session_def)
qed

lemma archive_session_success_usable:
  "fst (archive_session g sdir w) = Inr () \<Longrightarrow> archive_usable sdir w"
  by (cases "archive_usable sdir w") (simp_all add: archive_session_unfold mkdir_archive_ok)

text \<open>
  For a regular file that is listed, \<^verbatim>\<open>_archive_session\<close> returns exactly when nothing
  stands in the way, and otherwise it raises an \<^verbatim>\<open>Exception\<close> and changes nothing.
\<close>

lemma archive_session_ok:
  assumes "lookup_file sdir g w = Some (RegularFile sz c)"
  shows "fst (archive_session g sdir w) = Inr () \<longleftrightarrow> can_archive sdir g w"
proof (cases "archive_usable sdir w")
  case True
  let ?w1 = "snd (mkdir_archive sdir w)"
  from True have d: "archive_is_dir sdir ?w1" by (rule mkdir_archive_is_dir)
  from assms have l: "lookup_file sdir g ?w1 = Some (RegularFile sz c)"
    by (simp add: mkdir_archive_lookup)
  from move_file_ok [OF d l] True show ?thesis
    by (simp add: archive_session_unfold can_archive_def mkdir_archive_taken)
next
  case False
  then show ?thesis by (simp add: archive_session_unfold can_archive_def mkdir_archive_ok)
qed

lemma archive_session_blocked:
  assumes "\<not> can_archive sdir g w"
  shows "\<exists>e. archive_session g sdir w = (Inl (Exception e), w)"
proof (cases "archive_usable sdir w")
  case False
  from mkdir_archive_blocked [OF False] obtain e
    where "mkdir_archive sdir w = (Inl (Exception e), w)" by blast
  then show ?thesis by (simp add: archive_session_def)
next
  case True
  with assms have t: "destination_taken sdir g w" by (simp add: can_archive_def)
  then have "archive_is_dir sdir w" by (rule destination_taken_is_dir)
  then have m: "mkdir_archive sdir w = (Inr (), w)" by (rule mkdir_archive_there)
  from move_file_taken_fails [OF t] obtain e
    where "move_file g sdir w = (Inl (Exception e), w)" by blast
  with m show ?thesis by (simp add: archive_session_def)
qed

lemma archive_session_lookup:
  "lookup_file sdir' m (snd (archive_session g sdir w)) =
     (if fst (archive_session g sdir w) = Inr () \<and> sdir' = sdir \<and> m = g then None
      else lookup_file sdir' m w)"
proof (cases "fst (archive_session g sdir w) = Inr ()")
  case True
  then have u: "archive_usable sdir w" by (rule archive_session_success_usable)
  with True have "fst (move_file g sdir (snd (mkdir_archive sdir w))) = Inr ()"
    by (simp add: archive_session_unfold)
  from move_file_lookup [OF this] u True show ?thesis
    by (simp add: archive_session_unfold mkdir_archive_lookup)
next
  case False
  show ?thesis
  proof (cases "archive_usable sdir w")
    case True
    with False have "fst (move_file g sdir (snd (mkdir_archive sdir w))) \<noteq> Inr ()"
      by (simp add: archive_session_unfold)
    from move_file_fail [OF this] True False show ?thesis
      by (simp add: archive_session_unfold mkdir_archive_lookup)
  next
    case nu: False
    with False show ?thesis by (simp add: archive_session_unfold)
  qed
qed

lemma archive_session_archived:
  assumes "lookup_file sdir g w = Some (RegularFile sz c)"
  shows "archived_file sdir' m (snd (archive_session g sdir w)) =
     (if fst (archive_session g sdir w) = Inr () \<and> sdir' = sdir \<and> m = g
      then Some (RegularFile sz c) else archived_file sdir' m w)"
proof (cases "fst (archive_session g sdir w) = Inr ()")
  case True
  then have u: "archive_usable sdir w" by (rule archive_session_success_usable)
  let ?w1 = "snd (mkdir_archive sdir w)"
  from u True have s: "fst (move_file g sdir ?w1) = Inr ()"
    by (simp add: archive_session_unfold)
  from assms have l: "lookup_file sdir g ?w1 = Some (RegularFile sz c)"
    by (simp add: mkdir_archive_lookup)
  from move_file_archived [OF s l, of sdir' m] u True show ?thesis
    by (simp add: archive_session_unfold mkdir_archive_archived)
next
  case False
  with assms have "\<not> can_archive sdir g w" by (simp add: archive_session_ok)
  from archive_session_blocked [OF this] False show ?thesis by auto
qed




lemma archive_session_moves:
  "moves (trace (snd (archive_session g sdir w))) =
     moves (trace w) + (if fst (archive_session g sdir w) = Inr () then 1 else 0)"
  by (cases "archive_usable sdir w")
     (simp_all add: archive_session_unfold move_file_moves mkdir_archive_moves mkdir_archive_ok)

subsection \<open>Uploading\<close>

lemma upload_session_moves:
  "moves (trace (snd (upload_session srv a sid sdir g ep key w))) = moves (trace w)"
  by (simp add: upload_session_def Let_def trace_emit trace_log_msg moves_def
      split: option.splits node.splits http_outcome.splits)

lemma upload_session_True:
  "fst (upload_session srv a sid sdir g ep key w) = Inr True \<longleftrightarrow>
     (\<exists>sz text. lookup_file sdir g w = Some (RegularFile sz (Some text)) \<and>
        sz \<le> MAX_TRANSCRIPT_BYTES \<and>
        upload_accepted (srv (trace w) (session_request ep key a sid text)))"
  by (auto simp: upload_session_def Let_def no_such_file_def
      split: option.splits node.splits http_outcome.splits)


subsection \<open>One iteration of the loop over the completed files\<close>

lemma lookup_file_fs: "fs w' = fs w \<Longrightarrow> lookup_file sdir m w' = lookup_file sdir m w"
  by (simp add: lookup_file_def)

lemma archived_file_fs: "fs w' = fs w \<Longrightarrow> archived_file sdir m w' = archived_file sdir m w"
  by (simp add: archived_file_def)


lemma except_Exception_fs: "fs (snd (except_Exception sid x acc w)) = fs w"
  by (cases x) (simp_all add: except_Exception_def fs_log_msg)

lemma except_Exception_moves: "moves (trace (snd (except_Exception sid x acc w))) = moves (trace w)"
  by (cases x) (simp_all add: except_Exception_def moves_emit_Log)

lemma except_Exception_result:
  "fst (except_Exception sid x acc w) = Inr acc' \<Longrightarrow>
     fst acc' = fst acc \<and> (\<exists>e. snd acc' = snd acc @ [error_uploading sid e])"
  by (cases x) (auto simp: except_Exception_def)

lemma process_session_invalid:
  assumes "extract_session_id g = None"
  shows "process_session srv a sdir ep key g acc w =
           (Inr (fst acc, snd acc @ [''Invalid session filename: '' @ g]), w)"
  using assms by (simp add: process_session_def)

lemma process_session_raise:
  assumes "extract_session_id g = Some sid"
    and "fst (upload_session srv a sid sdir g ep key w) = Inl x"
  shows "process_session srv a sdir ep key g acc w =
           except_Exception sid x acc (snd (upload_session srv a sid sdir g ep key w))"
  using assms extract_session_id_nonempty [OF assms(1)]
  by (cases "upload_session srv a sid sdir g ep key w") (simp add: process_session_def)

lemma process_session_False:
  assumes "extract_session_id g = Some sid"
    and "fst (upload_session srv a sid sdir g ep key w) = Inr False"
  shows "process_session srv a sdir ep key g acc w =
           (Inr (fst acc, snd acc @ [upload_failed_error sid]),
            snd (upload_session srv a sid sdir g ep key w))"
  using assms extract_session_id_nonempty [OF assms(1)]
  by (cases "upload_session srv a sid sdir g ep key w") (simp add: process_session_def)

lemma process_session_True_failed:
  assumes "extract_session_id g = Some sid"
    and "fst (upload_session srv a sid sdir g ep key w) = Inr True"
    and "fst (archive_session g sdir (snd (upload_session srv a sid sdir g ep key w))) = Inl x"
  shows "process_session srv a sdir ep key g acc w =
           except_Exception sid x acc
             (snd (archive_session g sdir (snd (upload_session srv a sid sdir g ep key w))))"
  using assms extract_session_id_nonempty [OF assms(1)]
  by (cases "upload_session srv a sid sdir g ep key w";
      cases "archive_session g sdir (snd (upload_session srv a sid sdir g ep key w))")
     (simp add: process_session_def)

lemma process_session_True_archived:
  assumes "extract_session_id g = Some sid"
    and "fst (upload_session srv a sid sdir g ep key w) = Inr True"
    and "fst (archive_session g sdir (snd (upload_session srv a sid sdir g ep key w))) = Inr ()"
  shows "process_session srv a sdir ep key g acc w =
           (Inr (fst acc + 1, snd acc),
            log_msg INFO (''Uploaded and archived: '' @ sid)
              (snd (archive_session g sdir (snd (upload_session srv a sid sdir g ep key w)))))"
  using assms extract_session_id_nonempty [OF assms(1)]
  by (cases "upload_session srv a sid sdir g ep key w";
      cases "archive_session g sdir (snd (upload_session srv a sid sdir g ep key w))")
     (simp add: process_session_def)

lemma uploads_and_archives_iff:
  "uploads_and_archives srv a sdir ep key g w \<longleftrightarrow>
     (\<exists>sid sz text. extract_session_id g = Some sid \<and>
        lookup_file sdir g w = Some (RegularFile sz (Some text)) \<and>
        sz \<le> MAX_TRANSCRIPT_BYTES \<and>
        upload_accepted (srv (trace w) (session_request ep key a sid text)) \<and>
        can_archive sdir g w)"
  by (cases "extract_session_id g")
     (auto simp: uploads_and_archives_def upload_session_True)

lemma uploads_and_archives_archive_ok:
  assumes "extract_session_id g = Some sid" and "uploads_and_archives srv a sdir ep key g w"
  shows "fst (upload_session srv a sid sdir g ep key w) = Inr True
     \<and> fst (archive_session g sdir (snd (upload_session srv a sid sdir g ep key w))) = Inr ()"
proof -
  let ?w1 = "snd (upload_session srv a sid sdir g ep key w)"
  from assms have t: "fst (upload_session srv a sid sdir g ep key w) = Inr True"
    and u: "can_archive sdir g w" by (simp_all add: uploads_and_archives_def)
  from t obtain sz tx where l: "lookup_file sdir g w = Some (RegularFile sz (Some tx))"
    by (auto simp: upload_session_True)
  have f: "fs ?w1 = fs w" by (rule upload_session_fs)
  from l have l1: "lookup_file sdir g ?w1 = Some (RegularFile sz (Some tx))"
    by (simp add: lookup_file_fs [OF f])
  from u have "can_archive sdir g ?w1" by (simp add: can_archive_fs [OF f])
  with t show ?thesis by (simp add: archive_session_ok [OF l1])
qed

lemma process_session_counted:
  assumes "extract_session_id g = Some sid" and "uploads_and_archives srv a sdir ep key g w"
  shows "process_session srv a sdir ep key g acc w =
           (Inr (fst acc + 1, snd acc),
            log_msg INFO (''Uploaded and archived: '' @ sid)
              (snd (archive_session g sdir (snd (upload_session srv a sid sdir g ep key w)))))"
  using uploads_and_archives_archive_ok [OF assms] assms(1)
  by (simp add: process_session_True_archived)

lemma process_session_not_counted:
  assumes "\<not> uploads_and_archives srv a sdir ep key g w"
  shows "fs (snd (process_session srv a sdir ep key g acc w)) = fs w
     \<and> moves (trace (snd (process_session srv a sdir ep key g acc w))) = moves (trace w)
     \<and> (\<forall>acc'. fst (process_session srv a sdir ep key g acc w) = Inr acc' \<longrightarrow>
           fst acc' = fst acc \<and> (\<exists>e. snd acc' = snd acc @ [e]))"
proof (cases "extract_session_id g")
  case None
  then show ?thesis by (simp add: process_session_invalid)
next
  case (Some sid)
  let ?u = "upload_session srv a sid sdir g ep key w"
  have f: "fs (snd ?u) = fs w" by (rule upload_session_fs)
  have m: "moves (trace (snd ?u)) = moves (trace w)" by (rule upload_session_moves)
  show ?thesis
  proof (cases "fst ?u")
    case (Inl x)
    from process_session_raise [OF Some Inl] f m show ?thesis
      by (auto simp: except_Exception_fs except_Exception_moves dest: except_Exception_result)
  next
    case (Inr ok)
    show ?thesis
    proof (cases ok)
      case False
      with Inr process_session_False [OF Some] f m show ?thesis by simp
    next
      case True
      with Inr have t: "fst ?u = Inr True" by simp
      with assms Some have nu: "\<not> can_archive sdir g w" by (simp add: uploads_and_archives_def)
      then have nu1: "\<not> can_archive sdir g (snd ?u)" by (simp add: can_archive_fs [OF f])
      from archive_session_blocked [OF nu1] obtain e
        where a: "archive_session g sdir (snd ?u) = (Inl (Exception e), snd ?u)" by blast
      then have x: "fst (archive_session g sdir (snd ?u)) = Inl (Exception e)" by simp
      from process_session_True_failed [OF Some t x, of acc] a f m show ?thesis
        by (auto simp: except_Exception_fs except_Exception_moves dest: except_Exception_result)
    qed
  qed
qed

lemma process_session_lookup:
  "lookup_file sdir' m (snd (process_session srv a sdir ep key g acc w)) =
     (if uploads_and_archives srv a sdir ep key g w \<and> sdir' = sdir \<and> m = g then None
      else lookup_file sdir' m w)"
proof (cases "uploads_and_archives srv a sdir ep key g w")
  case False
  from process_session_not_counted [OF False, of acc]
  have f: "fs (snd (process_session srv a sdir ep key g acc w)) = fs w" by simp
  from False show ?thesis by (simp add: lookup_file_fs [OF f])
next
  case True
  then obtain sid where sid: "extract_session_id g = Some sid"
    by (auto simp: uploads_and_archives_iff)
  have f: "fs (snd (upload_session srv a sid sdir g ep key w)) = fs w"
    by (rule upload_session_fs)
  from uploads_and_archives_archive_ok [OF sid True] process_session_counted [OF sid True, of acc]
    True
  show ?thesis
    by (simp add: lookup_file_log_msg archive_session_lookup lookup_file_fs [OF f])
qed

lemma process_session_archived:
  "archived_file sdir' m (snd (process_session srv a sdir ep key g acc w)) =
     (if uploads_and_archives srv a sdir ep key g w \<and> sdir' = sdir \<and> m = g
      then lookup_file sdir g w else archived_file sdir' m w)"
proof (cases "uploads_and_archives srv a sdir ep key g w")
  case False
  from process_session_not_counted [OF False, of acc]
  have f: "fs (snd (process_session srv a sdir ep key g acc w)) = fs w" by simp
  from False show ?thesis by (simp add: archived_file_fs [OF f])
next
  case True
  then obtain sid sz tx where sid: "extract_session_id g = Some sid"
    and l: "lookup_file sdir g w = Some (RegularFile sz (Some tx))"
    by (auto simp: uploads_and_archives_iff)
  let ?w1 = "snd (upload_session srv a sid sdir g ep key w)"
  have f: "fs ?w1 = fs w" by (rule upload_session_fs)
  from l have l1: "lookup_file sdir g ?w1 = Some (RegularFile sz (Some tx))"
    by (simp add: lookup_file_fs [OF f])
  from uploads_and_archives_archive_ok [OF sid True] process_session_counted [OF sid True, of acc]
    True l
  show ?thesis
    by (simp add: archived_file_log_msg archive_session_archived [OF l1] archived_file_fs [OF f])
qed






lemma process_session_moves:
  "moves (trace (snd (process_session srv a sdir ep key g acc w))) =
     moves (trace w) + (if uploads_and_archives srv a sdir ep key g w then 1 else 0)"
proof (cases "uploads_and_archives srv a sdir ep key g w")
  case False
  from process_session_not_counted [OF False, of acc] False show ?thesis by simp
next
  case True
  then obtain sid where sid: "extract_session_id g = Some sid"
    by (auto simp: uploads_and_archives_iff)
  from uploads_and_archives_archive_ok [OF sid True] process_session_counted [OF sid True, of acc]
    True
  show ?thesis
    by (simp add: moves_emit_Log archive_session_moves upload_session_moves)
qed

lemma process_session_result:
  assumes "fst (process_session srv a sdir ep key g acc w) = Inr acc'"
  shows "fst acc' = fst acc + (if uploads_and_archives srv a sdir ep key g w then 1 else 0)
     \<and> (\<exists>es. snd acc' = snd acc @ es)"
proof (cases "uploads_and_archives srv a sdir ep key g w")
  case False
  from process_session_not_counted [OF False, of acc] assms False show ?thesis by auto
next
  case True
  then obtain sid where sid: "extract_session_id g = Some sid"
    by (auto simp: uploads_and_archives_iff)
  from process_session_counted [OF sid True, of acc] assms True show ?thesis by auto
qed

subsection \<open>The loops\<close>

lemma process_sessions_count:
  "process_sessions srv a sdir ep key names acc w = (Inr acc', w') \<Longrightarrow>
     moves (trace w') + fst acc = moves (trace w) + fst acc'"
proof (induction names arbitrary: acc w)
  case Nil
  then show ?case by simp
next
  case (Cons g rest)
  obtain res w1 where p: "process_session srv a sdir ep key g acc w = (res, w1)"
    by (cases "process_session srv a sdir ep key g acc w") blast
  show ?case
  proof (cases res)
    case (Inl x)
    with p Cons.prems show ?thesis by simp
  next
    case (Inr acc1)
    with p Cons.prems have r: "process_sessions srv a sdir ep key rest acc1 w1 = (Inr acc', w')"
      by simp
    from p Inr have "fst (process_session srv a sdir ep key g acc w) = Inr acc1" by simp
    from process_session_result [OF this] process_session_moves [of srv a sdir ep key g acc w] p
    have "moves (trace w1) + fst acc = moves (trace w) + fst acc1" by simp
    with Cons.IH [OF r] show ?thesis by simp
  qed
qed

lemma get_active_sessions_fs: "fs (snd (get_active_sessions sdir w)) = fs w"
  by (simp add: get_active_sessions_def fs_log_msg split: option.splits sessions_index.splits)

lemma get_active_sessions_moves: "moves (trace (snd (get_active_sessions sdir w))) = moves (trace w)"
  by (simp add: get_active_sessions_def moves_emit_Log split: option.splits sessions_index.splits)

lemma process_agent_unfold:
  "process_agent srv a sdir ep key w =
     (if find_completed_sessions sdir (active_ids sdir w) w = [] then
        (Inr (0, []),
         log_msg DEBUG (''No completed sessions for '' @ a) (snd (get_active_sessions sdir w)))
      else
        process_sessions srv a sdir ep key
          (find_completed_sessions sdir (active_ids sdir w) w) (0, [])
          (log_msg INFO
             (''Found '' @ str_nat (length (find_completed_sessions sdir (active_ids sdir w) w)) @
              '' completed sessions for '' @ a) (snd (get_active_sessions sdir w))))"
proof -
  have "find_completed_sessions sdir (active_ids sdir w) (snd (get_active_sessions sdir w)) =
        find_completed_sessions sdir (active_ids sdir w) w"
    by (rule find_completed_sessions_fs) (rule get_active_sessions_fs)
  then show ?thesis
    by (simp add: process_agent_def case_prod_beta active_ids_def Let_def)
qed

lemma process_agent_count:
  assumes "process_agent srv a sdir ep key w = (Inr r, w')"
  shows "moves (trace w') = moves (trace w) + fst r"
proof (cases "find_completed_sessions sdir (active_ids sdir w) w = []")
  case True
  with assms have "r = (0, [])"
    and "w' = log_msg DEBUG (''No completed sessions for '' @ a) (snd (get_active_sessions sdir w))"
    by (simp_all add: process_agent_unfold)
  then show ?thesis by (simp add: moves_emit_Log get_active_sessions_moves)
next
  case False
  with assms have "process_sessions srv a sdir ep key
          (find_completed_sessions sdir (active_ids sdir w) w) (0, [])
          (log_msg INFO
             (''Found '' @ str_nat (length (find_completed_sessions sdir (active_ids sdir w) w)) @
              '' completed sessions for '' @ a) (snd (get_active_sessions sdir w))) = (Inr r, w')"
    by (simp add: process_agent_unfold)
  from process_sessions_count [OF this] show ?thesis
    by (simp add: moves_emit_Log get_active_sessions_moves)
qed

lemma run_agents_count:
  "run_agents srv self ep key ids acc w = (Inr acc', w') \<Longrightarrow>
     moves (trace w') + fst acc = moves (trace w) + fst acc'"
proof (induction ids arbitrary: acc w)
  case Nil
  then show ?case by simp
next
  case (Cons a rest)
  show ?case
  proof (cases "agents self a")
    case None
    with Cons.prems Cons.IH [of "(fst acc, snd acc @ [''Agent not found in config: '' @ a])" w]
    show ?thesis by simp
  next
    case (Some ac)
    show ?thesis
    proof (cases "fs w (sessions_dir ac)")
      case None
      with Some Cons.prems
        Cons.IH [of acc "log_msg WARNING (''Sessions directory not found: '' @ sessions_dir ac) w"]
      show ?thesis by (simp add: moves_emit_Log)
    next
      case d: (Some d)
      obtain res w1 where p: "process_agent srv a (sessions_dir ac) ep key w = (res, w1)"
        by (cases "process_agent srv a (sessions_dir ac) ep key w") blast
      show ?thesis
      proof (cases res)
        case (Inl x)
        with p Some d Cons.prems show ?thesis by simp
      next
        case (Inr r)
        with p Some d Cons.prems
        have "run_agents srv self ep key rest (fst acc + fst r, snd acc @ snd r) w1 = (Inr acc', w')"
          by simp
        from Cons.IH [OF this] process_agent_count [OF p [unfolded Inr]] show ?thesis by simp
      qed
    qed
  qed
qed

lemma run_count:
  assumes "fst (run srv self ep key w) = Inr r"
  shows "moves (trace (snd (run srv self ep key w))) = moves (trace w) + items_processed r"
proof (cases "(case config self ''agents'' of None \<Rightarrow> [] | Some v \<Rightarrow> v) = []")
  case True
  with assms show ?thesis by (auto simp: run_def)
next
  case False
  obtain res w1 where ra: "run_agents srv self ep key
      (case config self ''agents'' of None \<Rightarrow> [] | Some v \<Rightarrow> v) (0, []) w = (res, w1)"
    by (cases "run_agents srv self ep key
      (case config self ''agents'' of None \<Rightarrow> [] | Some v \<Rightarrow> v) (0, []) w") blast
  show ?thesis
  proof (cases res)
    case (Inl x)
    with False ra assms show ?thesis by (simp add: run_def)
  next
    case (Inr acc)
    obtain t e where acc: "acc = (t, e)" by (cases acc) blast
    from run_agents_count [OF ra [unfolded Inr]] acc have "moves (trace w1) = moves (trace w) + t"
      by simp
    with False ra Inr acc assms show ?thesis by (auto simp: run_def Let_def)
  qed
qed

section \<open>What is counted\<close>

text \<open>
  C10. Whenever \<^verbatim>\<open>run\<close> returns a result, its \<^verbatim>\<open>items_processed\<close> is the number of
  files moved into an archive directory during the run. An iteration of the loop of
  \<^verbatim>\<open>_process_agent\<close> that ends normally adds one to the count exactly when it moves its
  file, and it then takes the file out of the listing and puts its entry into the
  archive. This happens exactly when the name yields a session id, the file is there and
  readable within the size limit, the response has status 200 or 409, and nothing stands
  in the way of archiving it (the path \<^verbatim>\<open>archive\<close> is free or a directory, and the
  file's place in it is not a directory that holds the name already); a failed or skipped
  file is never counted.
\<close>

theorem items_processed_counts_archived:
  assumes "fst (run srv self endpoint api_key w) = Inr r"
  shows "moves (trace (snd (run srv self endpoint api_key w))) = moves (trace w) + items_processed r
   \<and> (\<forall>agent_id sdir g acc w0 acc'.
         fst (process_session srv agent_id sdir endpoint api_key g acc w0) = Inr acc' \<longrightarrow>
           fst acc' = fst acc +
             (if uploads_and_archives srv agent_id sdir endpoint api_key g w0 then 1 else 0)
           \<and> moves (trace (snd (process_session srv agent_id sdir endpoint api_key g acc w0))) =
               moves (trace w0) +
                 (if uploads_and_archives srv agent_id sdir endpoint api_key g w0 then 1 else 0))
   \<and> (\<forall>agent_id sdir g acc w0.
         uploads_and_archives srv agent_id sdir endpoint api_key g w0 \<longrightarrow>
           lookup_file sdir g w0 \<noteq> None
           \<and> lookup_file sdir g (snd (process_session srv agent_id sdir endpoint api_key g acc w0)) = None
           \<and> archived_file sdir g (snd (process_session srv agent_id sdir endpoint api_key g acc w0))
               = lookup_file sdir g w0)
   \<and> (\<forall>agent_id sdir g w0.
         uploads_and_archives srv agent_id sdir endpoint api_key g w0 \<longleftrightarrow>
           (\<exists>sid sz text. extract_session_id g = Some sid \<and>
              lookup_file sdir g w0 = Some (RegularFile sz (Some text)) \<and>
              sz \<le> MAX_TRANSCRIPT_BYTES \<and>
              upload_accepted (srv (trace w0) (session_request endpoint api_key agent_id sid text)) \<and>
              can_archive sdir g w0))"
proof -
  have a: "moves (trace (snd (run srv self endpoint api_key w))) = moves (trace w) + items_processed r"
    by (rule run_count [OF assms])
  have b: "\<forall>agent_id sdir g acc w0 acc'.
         fst (process_session srv agent_id sdir endpoint api_key g acc w0) = Inr acc' \<longrightarrow>
           fst acc' = fst acc +
             (if uploads_and_archives srv agent_id sdir endpoint api_key g w0 then 1 else 0)
           \<and> moves (trace (snd (process_session srv agent_id sdir endpoint api_key g acc w0))) =
               moves (trace w0) +
                 (if uploads_and_archives srv agent_id sdir endpoint api_key g w0 then 1 else 0)"
    using process_session_result process_session_moves by blast
  have c: "\<forall>agent_id sdir g acc w0.
         uploads_and_archives srv agent_id sdir endpoint api_key g w0 \<longrightarrow>
           lookup_file sdir g w0 \<noteq> None
           \<and> lookup_file sdir g (snd (process_session srv agent_id sdir endpoint api_key g acc w0)) = None
           \<and> archived_file sdir g (snd (process_session srv agent_id sdir endpoint api_key g acc w0))
               = lookup_file sdir g w0"
    by (auto simp: process_session_lookup process_session_archived uploads_and_archives_iff)
  have d: "\<forall>agent_id sdir g w0.
         uploads_and_archives srv agent_id sdir endpoint api_key g w0 \<longleftrightarrow>
           (\<exists>sid sz text. extract_session_id g = Some sid \<and>
              lookup_file sdir g w0 = Some (RegularFile sz (Some text)) \<and>
              sz \<le> MAX_TRANSCRIPT_BYTES \<and>
              upload_accepted (srv (trace w0) (session_request endpoint api_key agent_id sid text)) \<and>
              can_archive sdir g w0)"
    using uploads_and_archives_iff by blast
  from a b c d show ?thesis by blast
qed

theorem items_processed_counts_archived_witness:
  "fst (run (server_status 409 ''exists'') (upload_job (Some [''a1''])) ''http://nexus'' ''k''
          (one_dir [(file_2222, RegularFile 5120 (Some ''{}'')), (file_short, RegularFile 3 (Some ''x'')),
                    (file_zzzz, RegularFile 10485761 (Some ''big''))] (Dict []) NoArchive))
     = Inr \<lparr>job_id = ''upload'', success = True, message = ''Uploaded 1 sessions, 1 errors'',
             items_processed = 1,
             errors = [''Upload failed: zzzzzzzz-zzzz-zzzz-zzzz-zzzzzzzzzzzz'']\<rparr>
   \<and> moves (trace (snd (run (server_status 409 ''exists'') (upload_job (Some [''a1'']))
          ''http://nexus'' ''k''
          (one_dir [(file_2222, RegularFile 5120 (Some ''{}'')), (file_short, RegularFile 3 (Some ''x'')),
                    (file_zzzz, RegularFile 10485761 (Some ''big''))] (Dict []) NoArchive)))) = 1"
proof -
  have h: "fst (run (server_status 409 ''exists'') (upload_job (Some [''a1''])) ''http://nexus'' ''k''
          (one_dir [(file_2222, RegularFile 5120 (Some ''{}'')), (file_short, RegularFile 3 (Some ''x'')),
                    (file_zzzz, RegularFile 10485761 (Some ''big''))] (Dict []) NoArchive))
     = Inr \<lparr>job_id = ''upload'', success = True, message = ''Uploaded 1 sessions, 1 errors'',
             items_processed = 1,
             errors = [''Upload failed: zzzzzzzz-zzzz-zzzz-zzzz-zzzzzzzzzzzz'']\<rparr>"
    by (simp add: eval_defs file_short_def)
  have t: "moves (trace (one_dir [(file_2222, RegularFile 5120 (Some ''{}'')),
                    (file_short, RegularFile 3 (Some ''x'')),
                    (file_zzzz, RegularFile 10485761 (Some ''big''))] (Dict []) NoArchive)) = 0"
    by (simp add: one_dir_def moves_def)
  from items_processed_counts_archived [OF h, THEN conjunct1] h t show ?thesis by simp
qed

text \<open>
  Where the file's place in the archive is a directory that does not hold the name,
  \<^verbatim>\<open>shutil.move\<close> puts the file inside that directory: the file is moved, and counted.
\<close>

lemma archive_into_directory_example:
  "run (server_status 200 []) (upload_job (Some [''a1''])) ''http://nexus'' ''k''
          (one_dir [(file_2222, RegularFile 5120 (Some ''{}''))] (Dict [])
             (ArchiveDir [(file_2222, Directory [])]))
     = (Inr uploaded_result,
        \<lparr>fs = [''/s'' \<mapsto> \<lparr>entries = [], sessions_json = Dict [],
                            archive = ArchiveDir
                              [(file_2222, Directory [(file_2222, RegularFile 5120 (Some ''{}''))])]\<rparr>],
         trace = [Log INFO ''Found 1 completed sessions for a1'',
                  Post (session_request ''http://nexus'' ''k'' ''a1''
                          ''22222222-2222-2222-2222-222222222222'' ''{}''),
                  Move (''/s/'' @ file_2222) (''/s/archive/'' @ file_2222 @ ''/'' @ file_2222),
                  Log INFO ''Uploaded and archived: 22222222-2222-2222-2222-222222222222'']\<rparr>)"
  by (simp add: eval_defs uploaded_result_def)

section \<open>A file through a whole run\<close>






subsection \<open>A refused upload\<close>







subsection \<open>An accepted upload\<close>









section \<open>The status-code policy\<close>





end
